theory Spec2Isabelle
  imports Main
begin

section \<open>Values of the configuration document\<close>

text \<open>
  \<^verbatim>\<open>yaml.safe_load\<close> returns nested Python values. The model keeps the null value,
  booleans, integers, strings, sequences and mappings with string keys (an association
  list; \<open>map_of\<close> is the lookup). Floats, dates and mappings with other keys are left
  out. A character stands for one code point below 256.
\<close>

datatype yaml =
    YNone
  | YBool bool
  | YInt int
  | YStr string
  | YList "yaml list"
  | YDict "(string \<times> yaml) list"

section \<open>Exceptions\<close>

text \<open>
  \<open>exn\<close> lists the classes below \<^verbatim>\<open>Exception\<close> that the program meets; \<open>OtherError\<close>
  is any further such class, by name. \<open>signal\<close> is everything that can be raised:
  \<^verbatim>\<open>except Exception\<close> matches \<open>Exception e\<close> only, and \<^verbatim>\<open>exit(n)\<close> raises
  \<open>SystemExit n\<close>.
\<close>

datatype exn =
    KeyError string
  | TypeError
  | AttributeError
  | ValueError string
  | CalledProcessError int string string
  | FileNotFoundError
  | TimeoutExpired
  | YAMLError string
  | OtherError string

datatype signal = Exception exn | KeyboardInterrupt | SystemExit nat

definition and_then :: "exn + 'a \<Rightarrow> ('a \<Rightarrow> exn + 'b) \<Rightarrow> exn + 'b" where
  "and_then m f = (case m of Inl e \<Rightarrow> Inl e | Inr x \<Rightarrow> f x)"

section \<open>The Python built-ins the program uses\<close>

text \<open>\<^verbatim>\<open>v[k]\<close> with a string key: only a mapping can be subscripted by a string.\<close>

definition py_getitem :: "yaml \<Rightarrow> string \<Rightarrow> exn + yaml" where
  "py_getitem v k =
     (case v of
        YDict kvs \<Rightarrow> (case map_of kvs k of Some x \<Rightarrow> Inr x | None \<Rightarrow> Inl (KeyError k))
      | _ \<Rightarrow> Inl TypeError)"

text \<open>\<^verbatim>\<open>v.get(k, d)\<close>: a method of mappings only.\<close>

definition py_get :: "yaml \<Rightarrow> string \<Rightarrow> yaml \<Rightarrow> exn + yaml" where
  "py_get v k d =
     (case v of
        YDict kvs \<Rightarrow> Inr (case map_of kvs k of Some x \<Rightarrow> x | None \<Rightarrow> d)
      | _ \<Rightarrow> Inl AttributeError)"

fun starts_with :: "string \<Rightarrow> string \<Rightarrow> bool" where
  "starts_with [] s = True"
| "starts_with (c # cs) [] = False"
| "starts_with (c # cs) (d # ds) = (c = d \<and> starts_with cs ds)"

fun has_substring :: "string \<Rightarrow> string \<Rightarrow> bool" where
  "has_substring k [] = (k = [])"
| "has_substring k (d # ds) = (starts_with k (d # ds) \<or> has_substring k ds)"

text \<open>\<^verbatim>\<open>k in v\<close> for a string \<open>k\<close>: key membership in a mapping, element membership in a
  sequence, substring test in a string; the other values are not containers.\<close>

definition py_in :: "string \<Rightarrow> yaml \<Rightarrow> exn + bool" where
  "py_in k v =
     (case v of
        YDict kvs \<Rightarrow> Inr (map_of kvs k \<noteq> None)
      | YList xs \<Rightarrow> Inr (List.member xs (YStr k))
      | YStr s \<Rightarrow> Inr (has_substring k s)
      | _ \<Rightarrow> Inl TypeError)"

text \<open>Truth value of \<^verbatim>\<open>if v:\<close>.\<close>

definition py_truthy :: "yaml \<Rightarrow> bool" where
  "py_truthy v =
     (case v of
        YNone \<Rightarrow> False
      | YBool b \<Rightarrow> b
      | YInt i \<Rightarrow> i \<noteq> 0
      | YStr s \<Rightarrow> s \<noteq> []
      | YList xs \<Rightarrow> xs \<noteq> []
      | YDict kvs \<Rightarrow> kvs \<noteq> [])"

text \<open>Iteration (\<^verbatim>\<open>for x in v\<close>, \<^verbatim>\<open>map(str, v)\<close>): a sequence gives its elements, a
  mapping its keys, a string its characters; anything else is not iterable.\<close>

definition py_iter :: "yaml \<Rightarrow> exn + yaml list" where
  "py_iter v =
     (case v of
        YList xs \<Rightarrow> Inr xs
      | YDict kvs \<Rightarrow> Inr (map (\<lambda>kv. YStr (fst kv)) kvs)
      | YStr s \<Rightarrow> Inr (map (\<lambda>c. YStr [c]) s)
      | _ \<Rightarrow> Inl TypeError)"

fun join_str :: "string \<Rightarrow> string list \<Rightarrow> string" where
  "join_str sep [] = []"
| "join_str sep [x] = x"
| "join_str sep (x # y # ys) = x @ sep @ join_str sep (y # ys)"

fun str_items :: "yaml list \<Rightarrow> string list option" where
  "str_items [] = Some []"
| "str_items (YStr s # vs) = (case str_items vs of Some ss \<Rightarrow> Some (s # ss) | None \<Rightarrow> None)"
| "str_items (v # vs) = None"

text \<open>\<^verbatim>\<open>sep.join(vs)\<close> raises TypeError unless every item is a string.\<close>

definition py_join :: "string \<Rightarrow> yaml list \<Rightarrow> exn + string" where
  "py_join sep vs = (case str_items vs of Some ss \<Rightarrow> Inr (join_str sep ss) | None \<Rightarrow> Inl TypeError)"

text \<open>Whitespace of \<^verbatim>\<open>str.split()\<close> among the code points below 256.\<close>

definition is_space :: "char \<Rightarrow> bool" where
  "is_space c = (of_char c \<in> {9, 10, 11, 12, 13, 28, 29, 30, 31, 32, 133, (160::nat)})"

fun split_ws :: "string \<Rightarrow> string \<Rightarrow> string list" where
  "split_ws cur [] = (if cur = [] then [] else [cur])"
| "split_ws cur (c # cs) =
     (if is_space c then (if cur = [] then split_ws [] cs else cur # split_ws [] cs)
      else split_ws (cur @ [c]) cs)"

text \<open>\<^verbatim>\<open>v.split()\<close>: a method of strings only.\<close>

definition py_split :: "yaml \<Rightarrow> exn + string list" where
  "py_split v = (case v of YStr s \<Rightarrow> Inr (split_ws [] s) | _ \<Rightarrow> Inl AttributeError)"

text \<open>\<^verbatim>\<open>s.zfill(width)\<close>: zeros on the left, after a leading sign.\<close>

definition py_zfill :: "string \<Rightarrow> nat \<Rightarrow> string" where
  "py_zfill s width =
     (if width \<le> length s then s
      else (case s of
              [] \<Rightarrow> replicate width CHR ''0''
            | c # cs \<Rightarrow>
                if c = CHR ''+'' \<or> c = CHR ''-''
                then c # replicate (width - length s) CHR ''0'' @ cs
                else replicate (width - length s) CHR ''0'' @ s))"

section \<open>State and environment\<close>

datatype level = INFO | WARNING | ERROR

text \<open>
  One constructor per logging call of the source; the arguments are the values its
  f-string interpolates. The message texts themselves are not modelled.
\<close>

datatype message =
    ConfigNotFound
  | YamlParsingError exn
  | ConfigLoadError exn
  | RunningBackup yaml yaml
  | Command string
  | BackupCompleted yaml string
  | BackupError yaml
  | ReturnCode int
  | Stdout string
  | Stderr string
  | SshNotFound
  | VzdumpTimeout yaml
  | VzdumpUnexpected yaml exn
  | StartingCycle
  | NodeFailed yaml
  | CycleCompleted int
  | ConfigLoaded yaml
  | ScheduledEveryMinute
  | ScheduledHourly string
  | ScheduledDaily string string
  | InvalidSchedule yaml exn
  | OrchestratorStarted
  | InterruptedByUser
  | MainLoopError exn

text \<open>The recurrence handed to the scheduling library by \<^verbatim>\<open>.do(backup_job, config)\<close>.\<close>

datatype recurrence_rule = EveryMinute | HourlyAtMinute nat | DailyAt nat nat

text \<open>
  \<open>logs\<close>: the records written so far; \<open>issued\<close>: the argument lists and timeouts handed
  to \<^verbatim>\<open>subprocess.run\<close>, oldest first; \<open>clock_reads\<close>: how often \<^verbatim>\<open>datetime.now()\<close> was
  called; \<open>jobs\<close>: the job registry of the scheduling library.
\<close>

record state =
  logs :: "(level \<times> message) list"
  issued :: "(yaml list \<times> nat) list"
  clock_reads :: nat
  jobs :: "recurrence_rule list"

definition logging :: "level \<Rightarrow> message \<Rightarrow> state \<Rightarrow> state" where
  "logging l m s = s\<lparr>logs := logs s @ [(l, m)]\<rparr>"

text \<open>What one call of \<^verbatim>\<open>subprocess.run\<close> does: the process ends with a return code and
  its captured output, the call raises an exception, or the user interrupts it.\<close>

datatype proc_outcome = Completed int string string | Raises exn | Interrupted

datatype time_unit = Hours | Days

text \<open>
  The environment of the program. \<open>py_str\<close> is the built-in \<^verbatim>\<open>str\<close> (also what an
  f-string applies); \<open>subprocess_run k args timeout\<close> is the outcome of the call of
  \<^verbatim>\<open>subprocess.run\<close> made after \<open>k\<close> earlier ones; \<open>datetime_now k\<close> is the reading of
  the wall clock after \<open>k\<close> earlier ones; \<open>schedule_at u t\<close> is the library's \<^verbatim>\<open>at(t)\<close>
  on a job of unit \<open>u\<close>: the hour and minute it stores, or the exception it raises.
\<close>

record world =
  py_str :: "yaml \<Rightarrow> string"
  subprocess_run :: "nat \<Rightarrow> yaml list \<Rightarrow> nat \<Rightarrow> proc_outcome"
  datetime_now :: "nat \<Rightarrow> int"
  schedule_at :: "time_unit \<Rightarrow> string \<Rightarrow> exn + (nat \<times> nat)"

section \<open>load_config\<close>

text \<open>The argument is what opening and parsing the file gives: the document or the
  exception raised.\<close>

definition load_config :: "exn + yaml \<Rightarrow> state \<Rightarrow> (signal + yaml) \<times> state" where
  "load_config file s =
     (case file of
        Inr doc \<Rightarrow> (Inr doc, s)
      | Inl FileNotFoundError \<Rightarrow> (Inl (SystemExit 1), logging ERROR ConfigNotFound s)
      | Inl (YAMLError m) \<Rightarrow> (Inl (SystemExit 1), logging ERROR (YamlParsingError (YAMLError m)) s)
      | Inl e \<Rightarrow> (Inl (SystemExit 1), logging ERROR (ConfigLoadError e) s))"

section \<open>run_vzdump\<close>

text \<open>The list literal of lines 38 to 54; its items are evaluated in order.\<close>

definition base_command :: "world \<Rightarrow> yaml \<Rightarrow> yaml \<Rightarrow> exn + yaml list" where
  "base_command w node_config config =
     and_then (py_getitem node_config ''fqdn'') (\<lambda>fqdn.
     and_then (py_getitem config ''mailto'') (\<lambda>mailto.
     and_then (py_getitem config ''fleecing'') (\<lambda>fleecing.
     and_then (py_getitem config ''bwlimit'') (\<lambda>bwlimit.
     and_then (py_getitem config ''pbs_storage'') (\<lambda>pbs_storage.
     and_then (py_getitem config ''notes_template'') (\<lambda>notes_template.
     and_then (py_getitem config ''mailnotification'') (\<lambda>mailnotification.
     and_then (py_getitem node_config ''shortname'') (\<lambda>shortname.
     Inr [YStr ''/usr/bin/ssh'',
          YStr ''-p'', YStr ''22'',
          YStr ''-o'', YStr ''StrictHostKeyChecking=no'',
          YStr ''-o'', YStr ''UserKnownHostsFile=/dev/null'',
          YStr (''root@'' @ py_str w fqdn),
          YStr ''vzdump'',
          YStr ''--mode'', YStr ''snapshot'',
          YStr ''--mailto'', mailto,
          YStr ''--fleecing'', YStr (py_str w fleecing),
          YStr ''--bwlimit'', YStr (py_str w bwlimit),
          YStr ''--storage'', pbs_storage,
          YStr ''--notes-template'', notes_template,
          YStr ''--mailnotification'', mailnotification,
          YStr ''--node'', shortname,
          YStr ''--all'', YStr ''1'']))))))))"

text \<open>Lines 57 to 62: the value bound to \<^verbatim>\<open>exclude_list\<close>.\<close>

definition exclude_list :: "yaml \<Rightarrow> yaml \<Rightarrow> exn + yaml" where
  "exclude_list node_config config =
     and_then (py_in ''exclude_vms'' node_config) (\<lambda>in_node.
       if in_node then py_getitem node_config ''exclude_vms''
       else and_then (py_in ''exclude_vms'' config) (\<lambda>in_config.
         if in_config then py_getitem config ''exclude_vms''
         else Inr (YList [])))"

text \<open>Lines 64 to 66: the items appended to the command.\<close>

definition exclude_args :: "world \<Rightarrow> yaml \<Rightarrow> exn + yaml list" where
  "exclude_args w excl =
     (if py_truthy excl
      then and_then (py_iter excl) (\<lambda>items.
             Inr [YStr ''--exclude'', YStr (join_str '','' (map (py_str w) items))])
      else Inr [])"

definition ssh_command :: "world \<Rightarrow> yaml \<Rightarrow> yaml \<Rightarrow> exn + yaml list" where
  "ssh_command w node_config config =
     and_then (base_command w node_config config) (\<lambda>base.
     and_then (exclude_list node_config config) (\<lambda>excl.
     and_then (exclude_args w excl) (\<lambda>extra.
     Inr (base @ extra))))"

text \<open>\<^verbatim>\<open>subprocess.run(..., check=True, timeout=t)\<close>: a non-zero return code is raised as
  CalledProcessError.\<close>

definition checked_run :: "world \<Rightarrow> nat \<Rightarrow> yaml list \<Rightarrow> nat \<Rightarrow> signal + (int \<times> string \<times> string)" where
  "checked_run w k args t =
     (case subprocess_run w k args t of
        Completed rc out err \<Rightarrow>
          if rc \<noteq> 0 then Inl (Exception (CalledProcessError rc out err)) else Inr (rc, out, err)
      | Raises e \<Rightarrow> Inl (Exception e)
      | Interrupted \<Rightarrow> Inl KeyboardInterrupt)"

text \<open>The \<^verbatim>\<open>try\<close> statement of lines 71 to 89, after the call: the success branch and the
  four handlers in their order; anything that is not an \<^verbatim>\<open>Exception\<close> passes through.\<close>

fun vzdump_outcome :: "yaml \<Rightarrow> signal + (int \<times> string \<times> string) \<Rightarrow> state \<Rightarrow> (signal + bool) \<times> state" where
  "vzdump_outcome shortname (Inr (rc, out, err)) s =
     (Inr True, logging INFO (BackupCompleted shortname out) s)"
| "vzdump_outcome shortname (Inl (Exception (CalledProcessError rc out err))) s =
     (Inr False,
      logging ERROR (Stderr err) (logging ERROR (Stdout out)
        (logging ERROR (ReturnCode rc) (logging ERROR (BackupError shortname) s))))"
| "vzdump_outcome shortname (Inl (Exception FileNotFoundError)) s =
     (Inr False, logging ERROR SshNotFound s)"
| "vzdump_outcome shortname (Inl (Exception TimeoutExpired)) s =
     (Inr False, logging ERROR (VzdumpTimeout shortname) s)"
| "vzdump_outcome shortname (Inl (Exception e)) s =
     (Inr False, logging ERROR (VzdumpUnexpected shortname e) s)"
| "vzdump_outcome shortname (Inl sig) s = (Inl sig, s)"

definition run_vzdump :: "world \<Rightarrow> yaml \<Rightarrow> yaml \<Rightarrow> state \<Rightarrow> (signal + bool) \<times> state" where
  "run_vzdump w node_config config s =
     (case ssh_command w node_config config of
        Inl e \<Rightarrow> (Inl (Exception e), s)
      | Inr cmd \<Rightarrow>
     (case py_getitem node_config ''shortname'' of
        Inl e \<Rightarrow> (Inl (Exception e), s)
      | Inr shortname \<Rightarrow>
     (case py_getitem node_config ''fqdn'' of
        Inl e \<Rightarrow> (Inl (Exception e), s)
      | Inr fqdn \<Rightarrow>
     (let s1 = logging INFO (RunningBackup shortname fqdn) s in
      case py_join '' '' cmd of
        Inl e \<Rightarrow> (Inl (Exception e), s1)
      | Inr line \<Rightarrow>
     (let s2 = logging INFO (Command line) s1;
          s3 = s2\<lparr>issued := issued s2 @ [(cmd, 1200)]\<rparr>
      in vzdump_outcome shortname (checked_run w (length (issued s2)) cmd 1200) s3)))))"

section \<open>backup_job\<close>

text \<open>The \<^verbatim>\<open>for\<close> loop of lines 96 to 98 over the nodes still to visit.\<close>

fun backup_nodes :: "world \<Rightarrow> yaml \<Rightarrow> yaml list \<Rightarrow> state \<Rightarrow> (signal + unit) \<times> state" where
  "backup_nodes w config [] s = (Inr (), s)"
| "backup_nodes w config (node_config # rest) s =
     (case run_vzdump w node_config config s of
        (Inl sig, s1) \<Rightarrow> (Inl sig, s1)
      | (Inr ok, s1) \<Rightarrow>
          if ok then backup_nodes w config rest s1
          else (case py_get node_config ''shortname'' (YStr ''N/A'') of
                  Inl e \<Rightarrow> (Inl (Exception e), s1)
                | Inr name \<Rightarrow> backup_nodes w config rest (logging WARNING (NodeFailed name) s1)))"

definition read_clock :: "state \<Rightarrow> state" where
  "read_clock s = s\<lparr>clock_reads := Suc (clock_reads s)\<rparr>"

definition backup_job :: "world \<Rightarrow> yaml \<Rightarrow> state \<Rightarrow> (signal + unit) \<times> state" where
  "backup_job w config s =
     (let s1 = logging INFO StartingCycle s;
          start_time = datetime_now w (clock_reads s1);
          s2 = read_clock s1
      in case and_then (py_getitem config ''nodes'') py_iter of
           Inl e \<Rightarrow> (Inl (Exception e), s2)
         | Inr nodes \<Rightarrow>
             (case backup_nodes w config nodes s2 of
                (Inl sig, s3) \<Rightarrow> (Inl sig, s3)
              | (Inr u, s3) \<Rightarrow>
                  (let end_time = datetime_now w (clock_reads s3);
                       s4 = read_clock s3;
                       duration = end_time - start_time
                   in (Inr (), logging INFO (CycleCompleted duration) s4))))"

section \<open>main\<close>

text \<open>\<^verbatim>\<open>.do(backup_job, config)\<close> appends the job to the registry of the library.\<close>

definition register :: "recurrence_rule \<Rightarrow> state \<Rightarrow> state" where
  "register r s = s\<lparr>jobs := jobs s @ [r]\<rparr>"

text \<open>
  The body of the \<^verbatim>\<open>try\<close> statement of lines 113 to 133. The library's \<^verbatim>\<open>at\<close> runs
  before \<^verbatim>\<open>.do\<close>, so nothing is registered when it raises; the recurrence registered
  carries the time that \<^verbatim>\<open>at\<close> stored.
\<close>

definition parse_schedule :: "world \<Rightarrow> yaml \<Rightarrow> state \<Rightarrow> (signal + unit) \<times> state" where
  "parse_schedule w config s =
     (case and_then (py_getitem config ''schedule'') py_split of
        Inl e \<Rightarrow> (Inl (Exception e), s)
      | Inr parts \<Rightarrow>
          if length parts \<noteq> 5
          then (Inl (Exception (ValueError ''The schedule string must have 5 parts'')), s)
          else
            (let minute = parts ! 0; hour = parts ! 1 in
             if hour = ''*'' \<and> minute = ''*''
             then (Inr (), logging INFO ScheduledEveryMinute (register EveryMinute s))
             else if hour = ''*''
             then (case schedule_at w Hours ('':'' @ py_zfill minute 2) of
                     Inl e \<Rightarrow> (Inl (Exception e), s)
                   | Inr t \<Rightarrow>
                       (Inr (), logging INFO (ScheduledHourly minute)
                                  (register (HourlyAtMinute (snd t)) s)))
             else (case schedule_at w Days (py_zfill hour 2 @ '':'' @ py_zfill minute 2) of
                     Inl e \<Rightarrow> (Inl (Exception e), s)
                   | Inr t \<Rightarrow>
                       (Inr (), logging INFO (ScheduledDaily (py_zfill hour 2) (py_zfill minute 2))
                                  (register (DailyAt (fst t) (snd t)) s)))))"

text \<open>The whole \<^verbatim>\<open>try\<close> statement: the handler of lines 135 to 137 takes ValueError only.\<close>

definition schedule_setup :: "world \<Rightarrow> yaml \<Rightarrow> state \<Rightarrow> (signal + unit) \<times> state" where
  "schedule_setup w config s =
     (case parse_schedule w config s of
        (Inl (Exception (ValueError m)), s1) \<Rightarrow>
          (case py_getitem config ''schedule'' of
             Inl e \<Rightarrow> (Inl (Exception e), s1)
           | Inr sched \<Rightarrow>
               (Inl (SystemExit 1), logging ERROR (InvalidSchedule sched (ValueError m)) s1))
      | r \<Rightarrow> r)"

text \<open>
  One pass of the body of \<^verbatim>\<open>while True\<close> (lines 145 to 150) is driven by what the
  scheduling library and the sleep do in it: nothing is due, the job is due and
  \<^verbatim>\<open>run_pending\<close> calls \<^verbatim>\<open>backup_job(config)\<close>, the pass raises an exception outside the
  job, or the user interrupts it outside the job. (An interrupt inside the job comes
  from \<open>subprocess_run\<close>.) The debug record of line 147 is below the configured level.
\<close>

datatype tick = NotDue | Due | PollFault exn | Interrupt

definition iteration :: "world \<Rightarrow> yaml \<Rightarrow> tick \<Rightarrow> state \<Rightarrow> (signal + unit) \<times> state" where
  "iteration w config t s =
     (let s1 = read_clock s in
      case t of
        NotDue \<Rightarrow> (Inr (), s1)
      | Due \<Rightarrow> backup_job w config s1
      | PollFault e \<Rightarrow> (Inl (Exception e), s1)
      | Interrupt \<Rightarrow> (Inl KeyboardInterrupt, s1))"

text \<open>
  How a run stands after the passes given: still in the loop, left by \<^verbatim>\<open>break\<close>, or
  ended by a signal nobody caught.
\<close>

datatype run_status = Polling | Stopped | Terminated signal

text \<open>The loop of lines 143 to 155, for as many passes as there are ticks.\<close>

fun main_loop :: "world \<Rightarrow> yaml \<Rightarrow> tick list \<Rightarrow> state \<Rightarrow> run_status \<times> state" where
  "main_loop w config [] s = (Polling, s)"
| "main_loop w config (t # ts) s =
     (case iteration w config t s of
        (Inr u, s1) \<Rightarrow> main_loop w config ts s1
      | (Inl KeyboardInterrupt, s1) \<Rightarrow> (Stopped, logging INFO InterruptedByUser s1)
      | (Inl (Exception e), s1) \<Rightarrow> main_loop w config ts (logging ERROR (MainLoopError e) s1)
      | (Inl sig, s1) \<Rightarrow> (Terminated sig, s1))"

text \<open>
  \<^verbatim>\<open>main\<close>, given what loading the file gives and the passes of the loop. The path of
  the file and the sleep of line 141 are left out.
\<close>

definition main :: "world \<Rightarrow> exn + yaml \<Rightarrow> tick list \<Rightarrow> state \<Rightarrow> run_status \<times> state" where
  "main w file ticks s =
     (case load_config file s of
        (Inl sig, s1) \<Rightarrow> (Terminated sig, s1)
      | (Inr config, s1) \<Rightarrow>
          (case schedule_setup w config (logging INFO (ConfigLoaded config) s1) of
             (Inl sig, s2) \<Rightarrow> (Terminated sig, s2)
           | (Inr u, s2) \<Rightarrow> main_loop w config ticks (logging INFO OrchestratorStarted s2)))"

section \<open>The scheduling library's time check\<close>

text \<open>
  A decimal literal is a non-empty string of digits; \<open>int_literal\<close> gives its value.
  \<open>split_colon\<close> is \<^verbatim>\<open>t.split(':')\<close>.
\<close>

definition is_digit :: "char \<Rightarrow> bool" where
  "is_digit c = (48 \<le> (of_char c :: nat) \<and> (of_char c :: nat) \<le> 57)"

fun digits_value :: "nat \<Rightarrow> string \<Rightarrow> nat option" where
  "digits_value acc [] = Some acc"
| "digits_value acc (c # cs) =
     (if is_digit c then digits_value (10 * acc + (of_char c - 48)) cs else None)"

definition int_literal :: "string \<Rightarrow> nat option" where
  "int_literal s = (if s = [] then None else digits_value 0 s)"

fun split_colon :: "string \<Rightarrow> string \<Rightarrow> string list" where
  "split_colon cur [] = [cur]"
| "split_colon cur (c # cs) =
     (if c = CHR '':'' then cur # split_colon [] cs else split_colon (cur @ [c]) cs)"

text \<open>
  Modelled from the spec: the \<^verbatim>\<open>schedule\<close> package, whose \<^verbatim>\<open>at\<close> checks the time of a
  job, is imported by the source and is not part of it. What \<^verbatim>\<open>at\<close> accepts is taken
  from section 4.1 of the specification: "Literal minute/hour values must be
  convertible to integers within range [0,59] / [0,23]; otherwise fails with
  InvalidTimeValue". The text handed to \<^verbatim>\<open>at\<close> is \<open>HH:MM\<close> for a daily job and \<open>:MM\<close>
  for an hourly job; the result is the hour and minute stored for the job (hour 0 for
  an hourly job). \<open>err\<close> is the exception that stands for InvalidTimeValue.
\<close>

definition spec_at :: "exn \<Rightarrow> time_unit \<Rightarrow> string \<Rightarrow> exn + (nat \<times> nat)" where
  "spec_at err u t =
     (case split_colon [] t of
        [hh, mm] \<Rightarrow>
          (case u of
             Hours \<Rightarrow>
               (case int_literal mm of
                  Some m \<Rightarrow> if hh = [] \<and> m \<le> 59 then Inr (0, m) else Inl err
                | None \<Rightarrow> Inl err)
           | Days \<Rightarrow>
               (case int_literal hh of
                  Some h \<Rightarrow>
                    (case int_literal mm of
                       Some m \<Rightarrow> if h \<le> 23 \<and> m \<le> 59 then Inr (h, m) else Inl err
                     | None \<Rightarrow> Inl err)
                | None \<Rightarrow> Inl err))
      | _ \<Rightarrow> Inl err)"

section \<open>The documented shape of the configuration\<close>

text \<open>
  Section 6 of the specification: a node has \<open>fqdn\<close>, \<open>shortname\<close> and an optional
  sequence \<open>exclude_vms\<close>; the global part has \<open>mailto\<close>, \<open>fleecing\<close>, \<open>bwlimit\<close>,
  \<open>pbs_storage\<close>, \<open>notes_template\<close>, \<open>mailnotification\<close> and an optional sequence
  \<open>exclude_vms\<close>. The entries that the command takes as they are must be strings.
\<close>

definition has_key :: "(string \<times> yaml) list \<Rightarrow> string \<Rightarrow> bool" where
  "has_key kvs k = (map_of kvs k \<noteq> None)"

definition has_str :: "(string \<times> yaml) list \<Rightarrow> string \<Rightarrow> bool" where
  "has_str kvs k = (case map_of kvs k of Some (YStr s) \<Rightarrow> True | _ \<Rightarrow> False)"

definition opt_list :: "(string \<times> yaml) list \<Rightarrow> string \<Rightarrow> bool" where
  "opt_list kvs k = (case map_of kvs k of None \<Rightarrow> True | Some (YList xs) \<Rightarrow> True | _ \<Rightarrow> False)"

definition node_ok :: "yaml \<Rightarrow> bool" where
  "node_ok node_config =
     (case node_config of
        YDict nd \<Rightarrow> has_key nd ''fqdn'' \<and> has_str nd ''shortname'' \<and> opt_list nd ''exclude_vms''
      | _ \<Rightarrow> False)"

definition global_ok :: "yaml \<Rightarrow> bool" where
  "global_ok config =
     (case config of
        YDict cd \<Rightarrow>
          has_str cd ''mailto'' \<and> has_key cd ''fleecing'' \<and> has_key cd ''bwlimit'' \<and>
          has_str cd ''pbs_storage'' \<and> has_str cd ''notes_template'' \<and>
          has_str cd ''mailnotification'' \<and> opt_list cd ''exclude_vms''
      | _ \<Rightarrow> False)"

text \<open>Some key that the command needs is absent from the node or from the global part.\<close>

definition lacks_key :: "(string \<times> yaml) list \<Rightarrow> (string \<times> yaml) list \<Rightarrow> bool" where
  "lacks_key nd cd =
     (\<not> has_key nd ''fqdn'' \<or> \<not> has_key nd ''shortname'' \<or> \<not> has_key cd ''mailto'' \<or>
      \<not> has_key cd ''fleecing'' \<or> \<not> has_key cd ''bwlimit'' \<or> \<not> has_key cd ''pbs_storage'' \<or>
      \<not> has_key cd ''notes_template'' \<or> \<not> has_key cd ''mailnotification'')"

text \<open>
  Vocabulary for a whole cycle: the command built for a node (empty when building it
  raises), whether the \<open>k\<close>-th remote call, made for a node, ends otherwise than with
  return code 0, and the warning that line 98 writes for a node.
\<close>

definition command_of :: "world \<Rightarrow> yaml \<Rightarrow> yaml \<Rightarrow> yaml list" where
  "command_of w node_config config =
     (case ssh_command w node_config config of Inr cmd \<Rightarrow> cmd | Inl e \<Rightarrow> [])"

definition call_fails :: "world \<Rightarrow> yaml \<Rightarrow> nat \<times> yaml \<Rightarrow> bool" where
  "call_fails w config kn =
     (case subprocess_run w (fst kn) (command_of w (snd kn) config) 1200 of
        Completed rc out err \<Rightarrow> rc \<noteq> 0
      | Raises e \<Rightarrow> True
      | Interrupted \<Rightarrow> True)"

definition warning_for :: "yaml \<Rightarrow> level \<times> message" where
  "warning_for node_config =
     (WARNING, NodeFailed (case py_get node_config ''shortname'' (YStr ''N/A'') of
                             Inr name \<Rightarrow> name | Inl e \<Rightarrow> YNone))"

definition is_warning :: "level \<times> message \<Rightarrow> bool" where
  "is_warning e = (fst e = WARNING)"

definition is_completion :: "level \<times> message \<Rightarrow> bool" where
  "is_completion e = (case snd e of CycleCompleted d \<Rightarrow> True | _ \<Rightarrow> False)"

section \<open>Examples\<close>

text \<open>
  A rendering of \<^verbatim>\<open>str\<close> for the examples: strings, integers, booleans and the null
  value as Python prints them; sequences and mappings, whose rendering is not
  modelled, give \<open>?\<close>. The theorems hold for every \<open>py_str\<close>.
\<close>

fun dec_nat :: "nat \<Rightarrow> string" where
  "dec_nat n =
     (if n < 10 then [''0123456789'' ! n]
      else dec_nat (n div 10) @ [''0123456789'' ! (n mod 10)])"

declare dec_nat.simps [simp del]

definition scalar_str :: "yaml \<Rightarrow> string" where
  "scalar_str v =
     (case v of
        YStr s \<Rightarrow> s
      | YInt i \<Rightarrow> (if i < 0 then CHR ''-'' # dec_nat (nat (- i)) else dec_nat (nat i))
      | YBool b \<Rightarrow> (if b then ''True'' else ''False'')
      | YNone \<Rightarrow> ''None''
      | _ \<Rightarrow> ''?'')"

text \<open>An environment in which the second remote call ends with return code 1 and every
  other one with 0, and the clock advances by seven units per reading.\<close>

definition example_world :: world where
  "example_world =
     \<lparr>py_str = scalar_str,
      subprocess_run = (\<lambda>k args t. if k = 1 then Completed 1 [] ''boom'' else Completed 0 ''ok'' []),
      datetime_now = (\<lambda>k. 100 + 7 * int k),
      schedule_at = spec_at (OtherError ''ScheduleValueError'')\<rparr>"

definition example_node :: "string \<Rightarrow> yaml" where
  "example_node name =
     YDict [(''shortname'', YStr name), (''fqdn'', YStr (name @ ''.lan''))]"

definition example_globals :: "(string \<times> yaml) list" where
  "example_globals =
     [(''mailto'', YStr ''ops@lan''), (''fleecing'', YInt 0), (''bwlimit'', YInt 50000),
      (''pbs_storage'', YStr ''pbs''), (''notes_template'', YStr ''n''),
      (''mailnotification'', YStr ''failure'')]"

definition example_config :: yaml where
  "example_config =
     YDict (example_globals @
       [(''schedule'', YStr ''30 2 * * *''),
        (''nodes'', YList [example_node ''a'', example_node ''b'', example_node ''c''])])"

definition initial_state :: state where
  "initial_state = \<lparr>logs = [], issued = [], clock_reads = 0, jobs = []\<rparr>"

text \<open>The example configuration without the key \<open>mailto\<close> and with two nodes.\<close>

definition config_without_mailto :: yaml where
  "config_without_mailto =
     YDict (tl example_globals @
       [(''schedule'', YStr ''30 2 * * *''),
        (''nodes'', YList [example_node ''a'', example_node ''b''])])"

text \<open>The example environment with a clock that is set back by seven units between two
  readings.\<close>

definition world_clock_set_back :: world where
  "world_clock_set_back = example_world\<lparr>datetime_now := (\<lambda>k. 100 - 7 * int k)\<rparr>"

text \<open>The example configuration in which the second of three nodes has no \<open>fqdn\<close>.\<close>

definition globals_node_without_fqdn :: "(string \<times> yaml) list" where
  "globals_node_without_fqdn =
     example_globals @
       [(''schedule'', YStr ''30 2 * * *''),
        (''nodes'', YList ([example_node ''a''] @ YDict [(''shortname'', YStr ''b'')] #
                            [example_node ''c'']))]"


section \<open>Evaluation rules for the examples\<close>

lemmas model_defs =
  run_vzdump_def ssh_command_def base_command_def exclude_list_def exclude_args_def
  py_getitem_def py_get_def py_in_def py_truthy_def py_iter_def py_join_def py_split_def
  py_zfill_def and_then_def checked_run_def logging_def read_clock_def register_def
  backup_job_def parse_schedule_def schedule_setup_def iteration_def main_def load_config_def
  command_of_def call_fails_def warning_for_def is_warning_def is_completion_def
  node_ok_def global_ok_def has_key_def has_str_def opt_list_def lacks_key_def
  scalar_str_def dec_nat.simps example_world_def example_node_def example_globals_def
  example_config_def initial_state_def spec_at_def int_literal_def is_digit_def is_space_def
  Let_def


section \<open>Building and running the command\<close>

lemma getitem_dict: "py_getitem (YDict kvs) k = (case map_of kvs k of Some x \<Rightarrow> Inr x | None \<Rightarrow> Inl (KeyError k))"
  by (simp add: py_getitem_def)

lemma and_then_Inr: "and_then (Inr x) f = f x"
  by (simp add: and_then_def)

lemma and_then_Inl: "and_then (Inl e) f = Inl e"
  by (simp add: and_then_def)

lemma has_key_getitem: "has_key kvs k \<Longrightarrow> \<exists>x. map_of kvs k = Some x \<and> py_getitem (YDict kvs) k = Inr x"
  by (auto simp: has_key_def getitem_dict)

lemma has_str_getitem: "has_str kvs k \<Longrightarrow> \<exists>x. map_of kvs k = Some (YStr x) \<and> py_getitem (YDict kvs) k = Inr (YStr x)"
  by (auto simp: has_str_def getitem_dict split: option.splits yaml.splits)

lemma base_command_ok:
  assumes "node_ok (YDict nd)" "global_ok (YDict cd)"
  shows "\<exists>fq sn base. map_of nd ''fqdn'' = Some fq \<and> map_of nd ''shortname'' = Some (YStr sn)
     \<and> base_command w (YDict nd) (YDict cd) = Inr base \<and> str_items base \<noteq> None"
proof -
  from assms obtain fq sn where n: "py_getitem (YDict nd) ''fqdn'' = Inr fq" "map_of nd ''fqdn'' = Some fq"
     "py_getitem (YDict nd) ''shortname'' = Inr (YStr sn)" "map_of nd ''shortname'' = Some (YStr sn)"
    unfolding node_ok_def using has_key_getitem[of nd "''fqdn''"] has_str_getitem[of nd "''shortname''"] by auto
  from assms(2) obtain mt fl bw ps nt mn where c:
    "py_getitem (YDict cd) ''mailto'' = Inr (YStr mt)"
    "py_getitem (YDict cd) ''fleecing'' = Inr fl"
    "py_getitem (YDict cd) ''bwlimit'' = Inr bw"
    "py_getitem (YDict cd) ''pbs_storage'' = Inr (YStr ps)"
    "py_getitem (YDict cd) ''notes_template'' = Inr (YStr nt)"
    "py_getitem (YDict cd) ''mailnotification'' = Inr (YStr mn)"
    unfolding global_ok_def using has_key_getitem[of cd "''fleecing''"] has_key_getitem[of cd "''bwlimit''"]
      has_str_getitem[of cd "''mailto''"] has_str_getitem[of cd "''pbs_storage''"]
      has_str_getitem[of cd "''notes_template''"] has_str_getitem[of cd "''mailnotification''"] by auto
  show ?thesis
    using n c by (simp add: base_command_def and_then_Inr)
qed

lemma exclude_list_dict:
  "exclude_list (YDict nd) (YDict cd) =
     Inr (case map_of nd ''exclude_vms'' of Some v \<Rightarrow> v
          | None \<Rightarrow> (case map_of cd ''exclude_vms'' of Some v \<Rightarrow> v | None \<Rightarrow> YList []))"
  by (auto simp: exclude_list_def py_in_def and_then_def getitem_dict split: option.splits)

lemma exclude_args_list:
  "exclude_args w (YList xs) =
     Inr (if xs = [] then [] else [YStr ''--exclude'', YStr (join_str '','' (map (py_str w) xs))])"
  by (simp add: exclude_args_def py_truthy_def py_iter_def and_then_def)

lemma str_items_append:
  "str_items (xs @ ys) = (case str_items xs of None \<Rightarrow> None | Some a \<Rightarrow> (case str_items ys of None \<Rightarrow> None | Some b \<Rightarrow> Some (a @ b)))"
  by (induction xs rule: str_items.induct) (auto split: option.splits)

lemma exclude_ok:
  assumes "opt_list nd ''exclude_vms''" "opt_list cd ''exclude_vms''"
  shows "\<exists>xs. exclude_list (YDict nd) (YDict cd) = Inr (YList xs)"
  using assms by (auto simp: exclude_list_dict opt_list_def split: option.splits yaml.splits)

lemma ssh_command_ok:
  assumes "node_ok (YDict nd)" "global_ok (YDict cd)"
  shows "\<exists>fq sn cmd. map_of nd ''fqdn'' = Some fq \<and> map_of nd ''shortname'' = Some (YStr sn)
     \<and> ssh_command w (YDict nd) (YDict cd) = Inr cmd \<and> str_items cmd \<noteq> None"
proof -
  from base_command_ok[OF assms, of w] obtain fq sn base where b:
    "map_of nd ''fqdn'' = Some fq" "map_of nd ''shortname'' = Some (YStr sn)"
    "base_command w (YDict nd) (YDict cd) = Inr base" "str_items base \<noteq> None" by blast
  from assms have "opt_list nd ''exclude_vms''" "opt_list cd ''exclude_vms''"
    by (simp_all add: node_ok_def global_ok_def)
  from exclude_ok[OF this] obtain xs where x: "exclude_list (YDict nd) (YDict cd) = Inr (YList xs)" by blast
  have "ssh_command w (YDict nd) (YDict cd) = Inr (base @ (if xs = [] then [] else [YStr ''--exclude'', YStr (join_str '','' (map (py_str w) xs))]))"
    by (simp add: ssh_command_def b x and_then_Inr exclude_args_list)
  moreover have "str_items (base @ (if xs = [] then [] else [YStr ''--exclude'', YStr (join_str '','' (map (py_str w) xs))])) \<noteq> None"
    using b(4) by (auto simp: str_items_append split: option.splits)
  ultimately show ?thesis using b by auto
qed

lemma run_vzdump_ok:
  assumes "node_ok (YDict nd)" "global_ok (YDict cd)"
  shows "\<exists>fq sn cmd line. map_of nd ''fqdn'' = Some fq \<and> map_of nd ''shortname'' = Some (YStr sn)
     \<and> ssh_command w (YDict nd) (YDict cd) = Inr cmd \<and> py_join '' '' cmd = Inr line
     \<and> run_vzdump w (YDict nd) (YDict cd) s =
         vzdump_outcome (YStr sn) (checked_run w (length (issued s)) cmd 1200)
           (s\<lparr>logs := logs s @ [(INFO, RunningBackup (YStr sn) fq), (INFO, Command line)],
              issued := issued s @ [(cmd, 1200)]\<rparr>)"
proof -
  from ssh_command_ok[OF assms, of w] obtain fq sn cmd where c:
    "map_of nd ''fqdn'' = Some fq" "map_of nd ''shortname'' = Some (YStr sn)"
    "ssh_command w (YDict nd) (YDict cd) = Inr cmd" "str_items cmd \<noteq> None" by blast
  then obtain ss where ss: "str_items cmd = Some ss" by auto
  have j: "py_join '' '' cmd = Inr (join_str '' '' ss)" by (simp add: py_join_def ss)
  have "run_vzdump w (YDict nd) (YDict cd) s =
         vzdump_outcome (YStr sn) (checked_run w (length (issued s)) cmd 1200)
           (s\<lparr>logs := logs s @ [(INFO, RunningBackup (YStr sn) fq), (INFO, Command (join_str '' '' ss))],
              issued := issued s @ [(cmd, 1200)]\<rparr>)"
    by (simp add: run_vzdump_def c j getitem_dict logging_def Let_def)
  with c j show ?thesis by blast
qed


section \<open>Outcomes and signals\<close>

lemma fst_vzdump_outcome:
  "fst (vzdump_outcome sn (checked_run w k cmd t) s) =
     (case subprocess_run w k cmd t of
        Completed rc out err \<Rightarrow> Inr (rc = 0)
      | Raises e \<Rightarrow> Inr False
      | Interrupted \<Rightarrow> Inl KeyboardInterrupt)"
proof (cases "subprocess_run w k cmd t")
  case (Completed rc out err)
  then show ?thesis by (simp add: checked_run_def)
next
  case (Raises e)
  then show ?thesis by (cases e) (simp_all add: checked_run_def)
next
  case Interrupted
  then show ?thesis by (simp add: checked_run_def)
qed

lemma vzdump_outcome_frame:
  "issued (snd (vzdump_outcome sn r s)) = issued s \<and>
   clock_reads (snd (vzdump_outcome sn r s)) = clock_reads s \<and>
   jobs (snd (vzdump_outcome sn r s)) = jobs s"
  by (induction sn r s rule: vzdump_outcome.induct) (simp_all add: logging_def)

lemma vzdump_outcome_logs:
  "logs (snd (vzdump_outcome sn (checked_run w k cmd t) s)) = logs s @
     (case subprocess_run w k cmd t of
        Completed rc out err \<Rightarrow>
          if rc = 0 then [(INFO, BackupCompleted sn out)]
          else [(ERROR, BackupError sn), (ERROR, ReturnCode rc), (ERROR, Stdout out), (ERROR, Stderr err)]
      | Raises e \<Rightarrow>
          (case e of
             CalledProcessError rc out err \<Rightarrow>
               [(ERROR, BackupError sn), (ERROR, ReturnCode rc), (ERROR, Stdout out), (ERROR, Stderr err)]
           | FileNotFoundError \<Rightarrow> [(ERROR, SshNotFound)]
           | TimeoutExpired \<Rightarrow> [(ERROR, VzdumpTimeout sn)]
           | _ \<Rightarrow> [(ERROR, VzdumpUnexpected sn e)])
      | Interrupted \<Rightarrow> [])"
proof (cases "subprocess_run w k cmd t")
  case (Completed rc out err)
  then show ?thesis by (simp add: checked_run_def logging_def)
next
  case (Raises e)
  then show ?thesis by (cases e) (simp_all add: checked_run_def logging_def)
next
  case Interrupted
  then show ?thesis by (simp add: checked_run_def)
qed

lemma run_vzdump_signal:
  assumes "fst (run_vzdump w node config s) = Inl sig"
  shows "(\<exists>e. sig = Exception e) \<or>
         (sig = KeyboardInterrupt \<and> (\<exists>k args. subprocess_run w k args 1200 = Interrupted))"
proof (cases "ssh_command w node config")
  case (Inl e)
  with assms show ?thesis by (auto simp: run_vzdump_def)
next
  case cmd: (Inr cmd)
  show ?thesis
  proof (cases "py_getitem node ''shortname''")
    case (Inl e)
    with assms cmd show ?thesis by (auto simp: run_vzdump_def)
  next
    case sn: (Inr sn)
    show ?thesis
    proof (cases "py_getitem node ''fqdn''")
      case (Inl e)
      with assms cmd sn show ?thesis by (auto simp: run_vzdump_def)
    next
      case fq: (Inr fq)
      show ?thesis
      proof (cases "py_join '' '' cmd")
        case (Inl e)
        with assms cmd sn fq show ?thesis by (auto simp: run_vzdump_def Let_def)
      next
        case (Inr line)
        with assms cmd sn fq
        have "fst (vzdump_outcome sn (checked_run w (length (issued (logging INFO (Command line) (logging INFO (RunningBackup sn fq) s)))) cmd 1200)
                 ((logging INFO (Command line) (logging INFO (RunningBackup sn fq) s))
                    \<lparr>issued := issued (logging INFO (Command line) (logging INFO (RunningBackup sn fq) s)) @ [(cmd, 1200)]\<rparr>)) = Inl sig"
          by (simp add: run_vzdump_def Let_def)
        then show ?thesis
          unfolding fst_vzdump_outcome by (auto split: proc_outcome.splits)
      qed
    qed
  qed
qed

lemma backup_nodes_signal:
  "fst (backup_nodes w config ns s) = Inl sig \<Longrightarrow>
     (\<exists>e. sig = Exception e) \<or>
     (sig = KeyboardInterrupt \<and> (\<exists>k args. subprocess_run w k args 1200 = Interrupted))"
proof (induction ns arbitrary: s)
  case Nil
  then show ?case by simp
next
  case (Cons n ns)
  obtain r s1 where r: "run_vzdump w n config s = (r, s1)" by (cases "run_vzdump w n config s")
  show ?case
  proof (cases r)
    case (Inl x)
    with Cons.prems r have "fst (run_vzdump w n config s) = Inl sig" by simp
    then show ?thesis by (rule run_vzdump_signal)
  next
    case (Inr ok)
    show ?thesis
    proof (cases ok)
      case True
      with Cons.prems r Inr have "fst (backup_nodes w config ns s1) = Inl sig" by simp
      then show ?thesis by (rule Cons.IH)
    next
      case False
      show ?thesis
      proof (cases "py_get n ''shortname'' (YStr ''N/A'')")
        case (Inl e)
        with Cons.prems r Inr False show ?thesis by auto
      next
        case nm: (Inr name)
        with Cons.prems r Inr False
        have "fst (backup_nodes w config ns (logging WARNING (NodeFailed name) s1)) = Inl sig" by simp
        then show ?thesis by (rule Cons.IH)
      qed
    qed
  qed
qed

lemma backup_job_signal:
  assumes "fst (backup_job w config s) = Inl sig"
  shows "(\<exists>e. sig = Exception e) \<or>
     (sig = KeyboardInterrupt \<and> (\<exists>k args. subprocess_run w k args 1200 = Interrupted))"
proof (cases "and_then (py_getitem config ''nodes'') py_iter")
  case (Inl e)
  with assms show ?thesis by (auto simp: backup_job_def Let_def)
next
  case (Inr ns)
  obtain r s3 where r: "backup_nodes w config ns (read_clock (logging INFO StartingCycle s)) = (r, s3)"
    by (cases "backup_nodes w config ns (read_clock (logging INFO StartingCycle s))")
  show ?thesis
  proof (cases r)
    case (Inl x)
    with assms Inr r have "fst (backup_nodes w config ns (read_clock (logging INFO StartingCycle s))) = Inl sig"
      by (simp add: backup_job_def Let_def)
    then show ?thesis by (rule backup_nodes_signal)
  next
    case (Inr u)
    with assms \<open>and_then (py_getitem config ''nodes'') py_iter = Inr ns\<close> r show ?thesis
      by (simp add: backup_job_def Let_def)
  qed
qed

lemma iteration_signal:
  assumes "fst (iteration w config t s) = Inl sig"
  shows "(\<exists>e. sig = Exception e) \<or>
     (sig = KeyboardInterrupt \<and> (t = Interrupt \<or> (\<exists>k args. subprocess_run w k args 1200 = Interrupted)))"
proof (cases t)
  case Due
  with assms have "fst (backup_job w config (read_clock s)) = Inl sig" by (simp add: iteration_def)
  from backup_job_signal[OF this] show ?thesis by blast
qed (use assms in \<open>auto simp: iteration_def\<close>)

lemma main_loop_Exception:
  "iteration w config t s = (Inl (Exception e), s1) \<Longrightarrow>
   main_loop w config (t # ts) s = main_loop w config ts (logging ERROR (MainLoopError e) s1)"
  by simp

lemma main_loop_Interrupt:
  "iteration w config t s = (Inl KeyboardInterrupt, s1) \<Longrightarrow>
   main_loop w config (t # ts) s = (Stopped, logging INFO InterruptedByUser s1)"
  by simp

lemma main_loop_status:
  "fst (main_loop w config ts s) = Polling \<or>
   (fst (main_loop w config ts s) = Stopped \<and>
      (Interrupt \<in> set ts \<or> (\<exists>k args. subprocess_run w k args 1200 = Interrupted)))"
proof (induction ts arbitrary: s)
  case Nil
  then show ?case by simp
next
  case (Cons t ts)
  obtain r s1 where r: "iteration w config t s = (r, s1)" by (cases "iteration w config t s")
  show ?case
  proof (cases r)
    case (Inr u)
    with r have "main_loop w config (t # ts) s = main_loop w config ts s1" by simp
    with Cons.IH[of s1] show ?thesis by auto
  next
    case (Inl sig)
    with r have "fst (iteration w config t s) = Inl sig" by simp
    from iteration_signal[OF this] consider e where "sig = Exception e"
      | "sig = KeyboardInterrupt" "t = Interrupt \<or> (\<exists>k args. subprocess_run w k args 1200 = Interrupted)"
      by blast
    then show ?thesis
    proof cases
      case 1
      with r Inl have "main_loop w config (t # ts) s = main_loop w config ts (logging ERROR (MainLoopError e) s1)" by simp
      with Cons.IH[of "logging ERROR (MainLoopError e) s1"] show ?thesis by auto
    next
      case 2
      with r Inl have "main_loop w config (t # ts) s = (Stopped, logging INFO InterruptedByUser s1)" by simp
      with 2 show ?thesis by auto
    qed
  qed
qed


section \<open>A cycle over the nodes\<close>

lemma node_ok_dict: "node_ok n \<Longrightarrow> \<exists>nd. n = YDict nd"
  by (cases n) (simp_all add: node_ok_def)

lemma global_ok_dict: "global_ok c \<Longrightarrow> \<exists>cd. c = YDict cd"
  by (cases c) (simp_all add: global_ok_def)

lemma run_vzdump_step:
  assumes ok: "node_ok n" "global_ok config"
    and live: "\<forall>k args. subprocess_run w k args 1200 \<noteq> Interrupted"
  shows "\<exists>s1. run_vzdump w n config s = (Inr (\<not> call_fails w config (length (issued s), n)), s1)
     \<and> issued s1 = issued s @ [(command_of w n config, 1200)]
     \<and> clock_reads s1 = clock_reads s \<and> jobs s1 = jobs s
     \<and> filter is_warning (logs s1) = filter is_warning (logs s)"
proof -
  from ok obtain nd cd where d: "n = YDict nd" "config = YDict cd"
    using node_ok_dict global_ok_dict by blast
  from run_vzdump_ok[of nd cd w s] ok d obtain fq sn cmd line where c:
    "ssh_command w n config = Inr cmd"
    "run_vzdump w n config s =
         vzdump_outcome (YStr sn) (checked_run w (length (issued s)) cmd 1200)
           (s\<lparr>logs := logs s @ [(INFO, RunningBackup (YStr sn) fq), (INFO, Command line)],
              issued := issued s @ [(cmd, 1200)]\<rparr>)" by auto
  let ?mid = "s\<lparr>logs := logs s @ [(INFO, RunningBackup (YStr sn) fq), (INFO, Command line)],
              issued := issued s @ [(cmd, 1200)]\<rparr>"
  let ?r = "vzdump_outcome (YStr sn) (checked_run w (length (issued s)) cmd 1200) ?mid"
  have co: "command_of w n config = cmd" by (simp add: command_of_def c)
  from live have nl: "subprocess_run w (length (issued s)) cmd 1200 \<noteq> Interrupted" by blast
  have f: "fst ?r = Inr (\<not> call_fails w config (length (issued s), n))"
    unfolding fst_vzdump_outcome using nl
    by (cases "subprocess_run w (length (issued s)) cmd 1200") (simp_all add: call_fails_def co)
  have i: "issued (snd ?r) = issued s @ [(cmd, 1200)]" "clock_reads (snd ?r) = clock_reads s"
      "jobs (snd ?r) = jobs s"
    using vzdump_outcome_frame[of "YStr sn" "checked_run w (length (issued s)) cmd 1200" ?mid] by simp_all
  have l: "filter is_warning (logs (snd ?r)) = filter is_warning (logs s)"
    unfolding vzdump_outcome_logs
    by (cases "subprocess_run w (length (issued s)) cmd 1200")
       (auto simp: is_warning_def split: exn.splits)
  have "run_vzdump w n config s = (fst ?r, snd ?r)" using c by simp
  with f i l co show ?thesis by auto
qed

lemma node_ok_warning: "node_ok n \<Longrightarrow> \<exists>name. py_get n ''shortname'' (YStr ''N/A'') = Inr name \<and> warning_for n = (WARNING, NodeFailed name)"
  by (cases n) (auto simp: node_ok_def py_get_def warning_for_def)

lemma backup_nodes_ok:
  assumes "global_ok config" "\<forall>k args. subprocess_run w k args 1200 \<noteq> Interrupted"
  shows "list_all node_ok ns \<Longrightarrow>
    \<exists>s1. backup_nodes w config ns s = (Inr (), s1)
     \<and> issued s1 = issued s @ map (\<lambda>n. (command_of w n config, 1200)) ns
     \<and> clock_reads s1 = clock_reads s \<and> jobs s1 = jobs s
     \<and> filter is_warning (logs s1) = filter is_warning (logs s) @
         map (\<lambda>kn. warning_for (snd kn))
           (filter (call_fails w config) (zip [length (issued s)..<length (issued s) + length ns] ns))"
proof (induction ns arbitrary: s)
  case Nil
  then show ?case by simp
next
  case (Cons n ns)
  then have n: "node_ok n" and ns: "list_all node_ok ns" by simp_all
  from run_vzdump_step[OF n assms, of s] obtain s1 where s1:
    "run_vzdump w n config s = (Inr (\<not> call_fails w config (length (issued s), n)), s1)"
    "issued s1 = issued s @ [(command_of w n config, 1200)]"
    "clock_reads s1 = clock_reads s" "jobs s1 = jobs s"
    "filter is_warning (logs s1) = filter is_warning (logs s)" by blast
  from node_ok_warning[OF n] obtain name where nm:
    "py_get n ''shortname'' (YStr ''N/A'') = Inr name" "warning_for n = (WARNING, NodeFailed name)" by blast
  define s2 where "s2 = (if call_fails w config (length (issued s), n) then logging WARNING (NodeFailed name) s1 else s1)"
  have step: "backup_nodes w config (n # ns) s = backup_nodes w config ns s2"
    by (simp add: s1 nm s2_def)
  have i2: "issued s2 = issued s @ [(command_of w n config, 1200)]" "clock_reads s2 = clock_reads s" "jobs s2 = jobs s"
    by (simp_all add: s2_def s1 logging_def)
  have l2: "filter is_warning (logs s2) = filter is_warning (logs s) @
     (if call_fails w config (length (issued s), n) then [warning_for n] else [])"
    by (simp add: s2_def s1 logging_def nm is_warning_def)
  from Cons.IH[OF ns, of s2] obtain s3 where s3:
    "backup_nodes w config ns s2 = (Inr (), s3)"
    "issued s3 = issued s2 @ map (\<lambda>n. (command_of w n config, 1200)) ns"
    "clock_reads s3 = clock_reads s2" "jobs s3 = jobs s2"
    "filter is_warning (logs s3) = filter is_warning (logs s2) @
         map (\<lambda>kn. warning_for (snd kn))
           (filter (call_fails w config) (zip [length (issued s2)..<length (issued s2) + length ns] ns))" by blast
  have len: "length (issued s2) = Suc (length (issued s))" by (simp add: i2)
  have z: "zip [length (issued s)..<length (issued s) + length (n # ns)] (n # ns) =
      (length (issued s), n) # zip [length (issued s2)..<length (issued s2) + length ns] ns"
    by (simp add: len upt_conv_Cons del: upt_Suc)
  show ?case
    unfolding step z using s3 i2 l2 by auto
qed

lemma backup_nodes_append:
  "backup_nodes w config pre s = (Inr (), s1) \<Longrightarrow>
   backup_nodes w config (pre @ rest) s = backup_nodes w config rest s1"
proof (induction pre arbitrary: s)
  case Nil
  then show ?case by simp
next
  case (Cons n pre)
  then show ?case
    by (auto split: prod.splits sum.splits if_splits)
qed

lemma lacks_key_base:
  "lacks_key nd cd \<Longrightarrow> \<exists>k. base_command w (YDict nd) (YDict cd) = Inl (KeyError k)"
  by (auto simp: lacks_key_def has_key_def base_command_def and_then_def getitem_dict split: option.splits)

lemma lacks_key_run:
  assumes "lacks_key nd cd"
  shows "\<exists>k. run_vzdump w (YDict nd) (YDict cd) s = (Inl (Exception (KeyError k)), s)"
proof -
  from lacks_key_base[OF assms, of w] obtain k where "base_command w (YDict nd) (YDict cd) = Inl (KeyError k)" by blast
  then have "ssh_command w (YDict nd) (YDict cd) = Inl (KeyError k)"
    by (simp add: ssh_command_def and_then_Inl)
  then show ?thesis by (simp add: run_vzdump_def)
qed

lemma vzdump_outcome_completion:
  "filter is_completion (logs (snd (vzdump_outcome sn r s))) = filter is_completion (logs s)"
  by (induction sn r s rule: vzdump_outcome.induct) (simp_all add: logging_def is_completion_def)

lemma run_vzdump_shape:
  "(\<exists>e s0. run_vzdump w n c s = (Inl (Exception e), s0) \<and> issued s0 = issued s \<and>
        filter is_completion (logs s0) = filter is_completion (logs s)) \<or>
   (\<exists>sn cmd mid. run_vzdump w n c s = vzdump_outcome sn (checked_run w (length (issued s)) cmd 1200) mid \<and>
        issued mid = issued s @ [(cmd, 1200)] \<and>
        filter is_completion (logs mid) = filter is_completion (logs s))"
proof (cases "ssh_command w n c")
  case (Inl e)
  then show ?thesis by (simp add: run_vzdump_def)
next
  case cmd: (Inr cmd)
  show ?thesis
  proof (cases "py_getitem n ''shortname''")
    case (Inl e)
    with cmd show ?thesis by (simp add: run_vzdump_def)
  next
    case sn: (Inr sn)
    show ?thesis
    proof (cases "py_getitem n ''fqdn''")
      case (Inl e)
      with cmd sn show ?thesis by (simp add: run_vzdump_def)
    next
      case fq: (Inr fq)
      show ?thesis
      proof (cases "py_join '' '' cmd")
        case (Inl e)
        with cmd sn fq show ?thesis
          by (simp add: run_vzdump_def Let_def logging_def is_completion_def)
      next
        case (Inr line)
        let ?mid = "(logging INFO (Command line) (logging INFO (RunningBackup sn fq) s))
                    \<lparr>issued := issued s @ [(cmd, 1200)]\<rparr>"
        have "run_vzdump w n c s = vzdump_outcome sn (checked_run w (length (issued s)) cmd 1200) ?mid"
          using cmd sn fq Inr by (simp add: run_vzdump_def Let_def logging_def)
        moreover have "issued ?mid = issued s @ [(cmd, 1200)]" by simp
        moreover have "filter is_completion (logs ?mid) = filter is_completion (logs s)"
          by (simp add: logging_def is_completion_def)
        ultimately show ?thesis by blast
      qed
    qed
  qed
qed

lemma run_vzdump_frame:
  assumes "run_vzdump w n c s = (r, s1)"
  shows "filter is_completion (logs s1) = filter is_completion (logs s) \<and>
         (case r of Inr ok \<Rightarrow> length (issued s1) = Suc (length (issued s)) | Inl sig \<Rightarrow> True)"
proof -
  from run_vzdump_shape[of w n c s] consider
    (raise) e s0 where "run_vzdump w n c s = (Inl (Exception e), s0)" "issued s0 = issued s"
        "filter is_completion (logs s0) = filter is_completion (logs s)"
  | (call) sn cmd mid where "run_vzdump w n c s = vzdump_outcome sn (checked_run w (length (issued s)) cmd 1200) mid"
        "issued mid = issued s @ [(cmd, 1200)]"
        "filter is_completion (logs mid) = filter is_completion (logs s)"
    by blast
  then show ?thesis
  proof cases
    case raise
    with assms show ?thesis by auto
  next
    case call
    let ?o = "vzdump_outcome sn (checked_run w (length (issued s)) cmd 1200) mid"
    have eq: "?o = (r, s1)" using call(1) assms by simp
    have s1: "s1 = snd ?o" "r = fst ?o" by (simp_all add: eq)
    have "issued s1 = issued s @ [(cmd, 1200)]"
      unfolding s1 using vzdump_outcome_frame[of sn "checked_run w (length (issued s)) cmd 1200" mid] call(2) by simp
    moreover have "filter is_completion (logs s1) = filter is_completion (logs s)"
      unfolding s1 vzdump_outcome_completion by (rule call(3))
    ultimately show ?thesis by (simp split: sum.splits)
  qed
qed

lemma backup_nodes_frame:
  "backup_nodes w c ns s = (Inr (), s1) \<Longrightarrow>
     length (issued s1) = length (issued s) + length ns \<and>
     filter is_completion (logs s1) = filter is_completion (logs s)"
proof (induction ns arbitrary: s)
  case Nil
  then show ?case by simp
next
  case (Cons n ns)
  obtain r s0 where r: "run_vzdump w n c s = (r, s0)" by (cases "run_vzdump w n c s")
  from run_vzdump_frame[OF r] have f: "filter is_completion (logs s0) = filter is_completion (logs s)"
    "case r of Inr ok \<Rightarrow> length (issued s0) = Suc (length (issued s)) | Inl sig \<Rightarrow> True" by simp_all
  show ?case
  proof (cases r)
    case (Inl sig)
    with Cons.prems r show ?thesis by simp
  next
    case (Inr ok)
    with f have len: "length (issued s0) = Suc (length (issued s))" by simp
    show ?thesis
    proof (cases ok)
      case True
      with Cons.prems r Inr have "backup_nodes w c ns s0 = (Inr (), s1)" by simp
      from Cons.IH[OF this] f(1) len show ?thesis by simp
    next
      case False
      show ?thesis
      proof (cases "py_get n ''shortname'' (YStr ''N/A'')")
        case (Inl e)
        with Cons.prems r Inr False show ?thesis by simp
      next
        case nm: (Inr name)
        with Cons.prems r Inr False
        have "backup_nodes w c ns (logging WARNING (NodeFailed name) s0) = (Inr (), s1)" by simp
        moreover have "filter is_completion (logs (logging WARNING (NodeFailed name) s0)) = filter is_completion (logs s0)"
          by (simp add: logging_def is_completion_def)
        moreover have "issued (logging WARNING (NodeFailed name) s0) = issued s0"
          by (simp add: logging_def)
        ultimately show ?thesis using Cons.IH[of "logging WARNING (NodeFailed name) s0"] f(1) len
          by simp
      qed
    qed
  qed
qed



section \<open>Schedule and startup\<close>

lemma schedule_parts:
  "map_of cd ''schedule'' = Some (YStr sch) \<Longrightarrow>
   and_then (py_getitem (YDict cd) ''schedule'') py_split = Inr (split_ws [] sch)"
  by (simp add: getitem_dict and_then_def py_split_def)

lemma parse_schedule_short:
  assumes "map_of cd ''schedule'' = Some (YStr sch)" "length (split_ws [] sch) \<noteq> 5"
  shows "parse_schedule w (YDict cd) s =
     (Inl (Exception (ValueError ''The schedule string must have 5 parts'')), s)"
  using assms by (simp add: parse_schedule_def schedule_parts)

lemma schedule_setup_short:
  assumes "map_of cd ''schedule'' = Some (YStr sch)" "length (split_ws [] sch) \<noteq> 5"
  shows "schedule_setup w (YDict cd) s =
     (Inl (SystemExit 1),
      logging ERROR (InvalidSchedule (YStr sch) (ValueError ''The schedule string must have 5 parts'')) s)"
  by (simp add: schedule_setup_def parse_schedule_short[OF assms] getitem_dict assms(1))

lemma parse_schedule_fields:
  assumes "map_of cd ''schedule'' = Some (YStr sch)" "split_ws [] sch = [mi, h, dm, mo, dw]"
  shows "parse_schedule w (YDict cd) s =
     (if h = ''*'' \<and> mi = ''*''
      then (Inr (), logging INFO ScheduledEveryMinute (register EveryMinute s))
      else if h = ''*''
      then (case schedule_at w Hours ('':'' @ py_zfill mi 2) of
              Inl e \<Rightarrow> (Inl (Exception e), s)
            | Inr t \<Rightarrow> (Inr (), logging INFO (ScheduledHourly mi) (register (HourlyAtMinute (snd t)) s)))
      else (case schedule_at w Days (py_zfill h 2 @ '':'' @ py_zfill mi 2) of
              Inl e \<Rightarrow> (Inl (Exception e), s)
            | Inr t \<Rightarrow> (Inr (), logging INFO (ScheduledDaily (py_zfill h 2) (py_zfill mi 2))
                                  (register (DailyAt (fst t) (snd t)) s))))"
  by (simp add: parse_schedule_def schedule_parts[OF assms(1)] assms(2) Let_def)

lemma is_digit_not_special: "is_digit c \<Longrightarrow> c \<noteq> CHR '':'' \<and> c \<noteq> CHR ''+'' \<and> c \<noteq> CHR ''-'' \<and> c \<noteq> CHR ''*''"
  by (auto simp: is_digit_def)

lemma digits_value_digits: "digits_value acc s = Some v \<Longrightarrow> list_all is_digit s"
  by (induction s arbitrary: acc) (auto split: if_splits)

lemma int_literal_digits: "int_literal s = Some v \<Longrightarrow> s \<noteq> [] \<and> list_all is_digit s"
  by (auto simp: int_literal_def digits_value_digits split: if_splits)

lemma int_literal_zfill: 
  assumes "int_literal s = Some v" shows "int_literal (py_zfill s 2) = Some v"
proof (cases "2 \<le> length s")
  case True
  then show ?thesis using assms by (simp add: py_zfill_def)
next
  case False
  then have "length s < 2" by simp
  with int_literal_digits[OF assms] have "\<exists>c. s = [c] \<and> is_digit c"
    by (cases s) (auto simp: numeral_2_eq_2 not_le)
  then obtain c where s: "s = [c]" "is_digit c" by blast
  with is_digit_not_special[of c] have "py_zfill s 2 = CHR ''0'' # s"
    by (simp add: py_zfill_def numeral_2_eq_2)
  moreover have "is_digit CHR ''0''" by (simp add: is_digit_def)
  ultimately show ?thesis using assms s by (simp add: int_literal_def)
qed

lemma split_colon_plain:
  "list_all (\<lambda>c. c \<noteq> CHR '':'') a \<Longrightarrow> split_colon cur (a @ rest) = split_colon (cur @ a) rest"
  by (induction a arbitrary: cur) auto

lemma split_colon_two:
  assumes "list_all is_digit a" "list_all is_digit b"
  shows "split_colon [] (a @ '':'' @ b) = [a, b]"
proof -
  have na: "list_all (\<lambda>c. c \<noteq> CHR '':'') a" and nb: "list_all (\<lambda>c. c \<noteq> CHR '':'') b"
    using assms is_digit_not_special by (auto simp: list_all_iff)
  have "split_colon [] (a @ '':'' @ b) = split_colon a ('':'' @ b)"
    using split_colon_plain[OF na, of "[]" "'':'' @ b"] by simp
  also have "\<dots> = a # split_colon [] (b @ [])" by simp
  also have "split_colon [] (b @ []) = [b]"
    unfolding split_colon_plain[OF nb] by simp
  finally show ?thesis .
qed

lemma spec_at_hours:
  assumes "int_literal mi = Some m" "m \<le> 59"
  shows "spec_at err Hours ('':'' @ py_zfill mi 2) = Inr (0, m)"
proof -
  have z: "int_literal (py_zfill mi 2) = Some m" by (rule int_literal_zfill[OF assms(1)])
  from int_literal_digits[OF z] have "split_colon [] ([] @ '':'' @ py_zfill mi 2) = [[], py_zfill mi 2]"
    by (intro split_colon_two) simp_all
  then show ?thesis using z assms(2) by (simp add: spec_at_def)
qed

lemma spec_at_days:
  assumes "int_literal h = Some hh" "hh \<le> 23" "int_literal mi = Some m" "m \<le> 59"
  shows "spec_at err Days (py_zfill h 2 @ '':'' @ py_zfill mi 2) = Inr (hh, m)"
proof -
  have z: "int_literal (py_zfill mi 2) = Some m" "int_literal (py_zfill h 2) = Some hh"
    using assms int_literal_zfill by simp_all
  from int_literal_digits[OF z(1)] int_literal_digits[OF z(2)]
  have "split_colon [] (py_zfill h 2 @ '':'' @ py_zfill mi 2) = [py_zfill h 2, py_zfill mi 2]"
    by (intro split_colon_two) simp_all
  then show ?thesis using z assms by (simp add: spec_at_def)
qed

lemma split_colon_last:
  "split_colon cur (x @ '':0*'') \<noteq> [] \<and> last (split_colon cur (x @ '':0*'')) = ''0*''"
  by (induction x arbitrary: cur) auto

lemma spec_at_wildcard_minute: "spec_at err Days (x @ '':0*'') = Inl err"
proof -
  have n: "int_literal ''0*'' = None" by (simp add: int_literal_def is_digit_def)
  obtain ps where ps: "split_colon [] (x @ '':0*'') = ps" by simp
  with split_colon_last[of "[]" x] have l: "ps \<noteq> []" "last ps = ''0*''" by simp_all
  show ?thesis
  proof (cases ps)
    case Nil
    with l show ?thesis by simp
  next
    case (Cons a qs)
    show ?thesis
    proof (cases qs)
      case Nil
      with Cons ps show ?thesis by (simp add: spec_at_def)
    next
      case c2: (Cons b rs)
      show ?thesis
      proof (cases rs)
        case Nil
        with Cons c2 l have "b = ''0*''" by simp
        with Cons c2 Nil ps n show ?thesis by (simp add: spec_at_def split: option.splits)
      next
        case (Cons c ts)
        with \<open>ps = a # qs\<close> c2 ps show ?thesis by (simp add: spec_at_def)
      qed
    qed
  qed
qed

lemma zfill_star: "py_zfill ''*'' 2 = ''0*''"
  by (simp add: py_zfill_def)





lemma main_loaded:
  "main w (Inr c) ticks s =
     (case schedule_setup w c (logging INFO (ConfigLoaded c) s) of
        (Inl sig, s2) \<Rightarrow> (Terminated sig, s2)
      | (Inr u, s2) \<Rightarrow> main_loop w c ticks (logging INFO OrchestratorStarted s2))"
  by (simp add: main_def load_config_def)




lemma int_literal_not_star: "int_literal h = Some v \<Longrightarrow> h \<noteq> ''*''"
  by (auto simp: int_literal_def is_digit_def)

section \<open>The claims\<close>

subsection \<open>C1: when run_vzdump returns an outcome\<close>

text \<open>
  C1. The claim is that \<^verbatim>\<open>run_vzdump\<close> returns an outcome for every node and global
  configuration, missing keys included. The command is built before the \<^verbatim>\<open>try\<close>
  statement (lines 38 to 69), so a missing key raises KeyError past the function; the
  two evaluations below show it for a node without \<open>fqdn\<close> and for an empty global
  configuration.
\<close>

theorem run_vzdump_raises_KeyError:
  "run_vzdump example_world (YDict [(''shortname'', YStr ''a'')]) example_config initial_state =
     (Inl (Exception (KeyError ''fqdn'')), initial_state) \<and>
   run_vzdump example_world (example_node ''a'') (YDict []) initial_state =
     (Inl (Exception (KeyError ''mailto'')), initial_state)"
  by (simp add: model_defs)

text \<open>
  C1, as the code has it. For a node and a global configuration of the documented shape,
  \<^verbatim>\<open>run_vzdump\<close> returns an outcome: success exactly when the remote command ends with
  return code 0, failure for any other return code and for every exception the call
  raises. Only an interrupt by the user during the call passes through.
\<close>

theorem run_vzdump_returns:
  assumes "node_ok node_config" "global_ok config"
  shows "fst (run_vzdump w node_config config s) =
           (case subprocess_run w (length (issued s)) (command_of w node_config config) 1200 of
              Completed rc out err \<Rightarrow> Inr (rc = 0)
            | Raises e \<Rightarrow> Inr False
            | Interrupted \<Rightarrow> Inl KeyboardInterrupt)"
proof -
  from assms obtain nd cd where d: "node_config = YDict nd" "config = YDict cd"
    using node_ok_dict global_ok_dict by blast
  from run_vzdump_ok[of nd cd w s] assms d obtain fq sn cmd line where c:
    "ssh_command w node_config config = Inr cmd"
    "run_vzdump w node_config config s =
         vzdump_outcome (YStr sn) (checked_run w (length (issued s)) cmd 1200)
           (s\<lparr>logs := logs s @ [(INFO, RunningBackup (YStr sn) fq), (INFO, Command line)],
              issued := issued s @ [(cmd, 1200)]\<rparr>)" by auto
  have "command_of w node_config config = cmd" by (simp add: command_of_def c(1))
  then show ?thesis unfolding c(2) fst_vzdump_outcome by simp
qed

theorem run_vzdump_returns_witness:
  "node_ok (example_node ''a'') \<and> global_ok example_config \<and>
   fst (run_vzdump example_world (example_node ''a'') example_config initial_state) = Inr True"
proof -
  have n: "node_ok (example_node ''a'')" by (simp add: model_defs)
  have g: "global_ok example_config" by (simp add: model_defs)
  show ?thesis
    using n g run_vzdump_returns[OF n g, of example_world initial_state]
    by (simp add: example_world_def initial_state_def)
qed

subsection \<open>C6: timeout and classification of the outcome\<close>

text \<open>
  C6. For a node and a global configuration of the documented shape, \<^verbatim>\<open>run_vzdump\<close>
  hands the command to \<^verbatim>\<open>subprocess.run\<close> once, with the timeout 1200. It returns
  success if and only if the call completes with return code 0. A non-zero return code
  gives failure and the records of the return code, the standard output and the
  standard error; a missing \<^verbatim>\<open>ssh\<close> gives failure and the record that it was not found;
  an expired timeout gives failure and the timeout record; every other exception gives
  failure and the record of an unexpected error. The records are those that follow the
  two that announce the command.
\<close>

theorem run_vzdump_classifies:
  assumes "node_ok (YDict nd)" "global_ok config" "map_of nd ''shortname'' = Some sn"
  shows "issued (snd (run_vzdump w (YDict nd) config s)) =
           issued s @ [(command_of w (YDict nd) config, 1200)] \<and>
         (fst (run_vzdump w (YDict nd) config s) = Inr True \<longleftrightarrow>
            (\<exists>out err. subprocess_run w (length (issued s)) (command_of w (YDict nd) config) 1200
                          = Completed 0 out err)) \<and>
         (subprocess_run w (length (issued s)) (command_of w (YDict nd) config) 1200
            = Completed rc out err \<and> rc \<noteq> 0 \<longrightarrow>
          fst (run_vzdump w (YDict nd) config s) = Inr False \<and>
          drop (length (logs s) + 2) (logs (snd (run_vzdump w (YDict nd) config s))) =
            [(ERROR, BackupError sn), (ERROR, ReturnCode rc), (ERROR, Stdout out), (ERROR, Stderr err)]) \<and>
         (subprocess_run w (length (issued s)) (command_of w (YDict nd) config) 1200
            = Raises FileNotFoundError \<longrightarrow>
          fst (run_vzdump w (YDict nd) config s) = Inr False \<and>
          drop (length (logs s) + 2) (logs (snd (run_vzdump w (YDict nd) config s))) =
            [(ERROR, SshNotFound)]) \<and>
         (subprocess_run w (length (issued s)) (command_of w (YDict nd) config) 1200
            = Raises TimeoutExpired \<longrightarrow>
          fst (run_vzdump w (YDict nd) config s) = Inr False \<and>
          drop (length (logs s) + 2) (logs (snd (run_vzdump w (YDict nd) config s))) =
            [(ERROR, VzdumpTimeout sn)]) \<and>
         (subprocess_run w (length (issued s)) (command_of w (YDict nd) config) 1200 = Raises e \<and>
          e \<noteq> FileNotFoundError \<and> e \<noteq> TimeoutExpired \<and>
          (\<forall>rc' out' err'. e \<noteq> CalledProcessError rc' out' err') \<longrightarrow>
          fst (run_vzdump w (YDict nd) config s) = Inr False \<and>
          drop (length (logs s) + 2) (logs (snd (run_vzdump w (YDict nd) config s))) =
            [(ERROR, VzdumpUnexpected sn e)])"
proof -
  from assms(2) obtain cd where d: "config = YDict cd" using global_ok_dict by blast
  from run_vzdump_ok[of nd cd w s] assms d obtain fq cmd line where c:
    "ssh_command w (YDict nd) config = Inr cmd"
    "run_vzdump w (YDict nd) config s =
         vzdump_outcome sn (checked_run w (length (issued s)) cmd 1200)
           (s\<lparr>logs := logs s @ [(INFO, RunningBackup sn fq), (INFO, Command line)],
              issued := issued s @ [(cmd, 1200)]\<rparr>)" by auto
  let ?mid = "s\<lparr>logs := logs s @ [(INFO, RunningBackup sn fq), (INFO, Command line)],
              issued := issued s @ [(cmd, 1200)]\<rparr>"
  let ?o = "subprocess_run w (length (issued s)) cmd 1200"
  have co: "command_of w (YDict nd) config = cmd" by (simp add: command_of_def c(1))
  have f: "fst (run_vzdump w (YDict nd) config s) =
     (case ?o of Completed rc out err \<Rightarrow> Inr (rc = 0) | Raises e \<Rightarrow> Inr False
      | Interrupted \<Rightarrow> Inl KeyboardInterrupt)"
    unfolding c(2) by (rule fst_vzdump_outcome)
  have i: "issued (snd (run_vzdump w (YDict nd) config s)) = issued s @ [(cmd, 1200)]"
    unfolding c(2)
    using vzdump_outcome_frame[of sn "checked_run w (length (issued s)) cmd 1200" ?mid] by simp
  have l: "drop (length (logs s) + 2) (logs (snd (run_vzdump w (YDict nd) config s))) =
     (case ?o of
        Completed rc out err \<Rightarrow>
          if rc = 0 then [(INFO, BackupCompleted sn out)]
          else [(ERROR, BackupError sn), (ERROR, ReturnCode rc), (ERROR, Stdout out), (ERROR, Stderr err)]
      | Raises e \<Rightarrow>
          (case e of
             CalledProcessError rc out err \<Rightarrow>
               [(ERROR, BackupError sn), (ERROR, ReturnCode rc), (ERROR, Stdout out), (ERROR, Stderr err)]
           | FileNotFoundError \<Rightarrow> [(ERROR, SshNotFound)]
           | TimeoutExpired \<Rightarrow> [(ERROR, VzdumpTimeout sn)]
           | _ \<Rightarrow> [(ERROR, VzdumpUnexpected sn e)])
      | Interrupted \<Rightarrow> [])"
    unfolding c(2) vzdump_outcome_logs by simp
  have t: "fst (run_vzdump w (YDict nd) config s) = Inr True \<longleftrightarrow> (\<exists>out err. ?o = Completed 0 out err)"
    unfolding f by (cases ?o) auto
  have u: "?o = Raises e \<and> e \<noteq> FileNotFoundError \<and> e \<noteq> TimeoutExpired \<and>
          (\<forall>rc' out' err'. e \<noteq> CalledProcessError rc' out' err') \<longrightarrow>
          fst (run_vzdump w (YDict nd) config s) = Inr False \<and>
          drop (length (logs s) + 2) (logs (snd (run_vzdump w (YDict nd) config s))) =
            [(ERROR, VzdumpUnexpected sn e)]"
    unfolding f l by (cases e) auto
  show ?thesis
    unfolding co using i t u f l by simp
qed

theorem run_vzdump_classifies_witness:
  "node_ok (example_node ''b'') \<and> global_ok example_config \<and>
   issued (snd (run_vzdump example_world (example_node ''b'') example_config
                  (initial_state\<lparr>issued := [([], 1200)]\<rparr>))) =
     [([], 1200), (command_of example_world (example_node ''b'') example_config, 1200)] \<and>
   fst (run_vzdump example_world (example_node ''b'') example_config
          (initial_state\<lparr>issued := [([], 1200)]\<rparr>)) = Inr False \<and>
   drop 2 (logs (snd (run_vzdump example_world (example_node ''b'') example_config
                        (initial_state\<lparr>issued := [([], 1200)]\<rparr>)))) =
     [(ERROR, BackupError (YStr ''b'')), (ERROR, ReturnCode 1), (ERROR, Stdout []),
      (ERROR, Stderr ''boom'')]"
proof -
  have n: "node_ok (YDict [(''shortname'', YStr ''b''), (''fqdn'', YStr ''b.lan'')])"
    by (simp add: model_defs)
  have g: "global_ok example_config" by (simp add: model_defs)
  have m: "map_of [(''shortname'', YStr ''b''), (''fqdn'', YStr ''b.lan'')] ''shortname'' = Some (YStr ''b'')"
    by simp
  have o: "subprocess_run example_world (length (issued (initial_state\<lparr>issued := [([], 1200)]\<rparr>)))
             (command_of example_world (YDict [(''shortname'', YStr ''b''), (''fqdn'', YStr ''b.lan'')]) example_config) 1200
           = Completed 1 [] ''boom''"
    by (simp add: example_world_def)
  show ?thesis
    using n g o run_vzdump_classifies[OF n g m, of example_world "initial_state\<lparr>issued := [([], 1200)]\<rparr>" 1 "[]" "''boom''"]
    by (simp add: example_node_def initial_state_def numeral_2_eq_2)
qed

subsection \<open>C2: the effective exclusion list\<close>

text \<open>
  C2. The effective exclusion list is resolved node first: when the node has the key
  \<open>exclude_vms\<close> its value is taken, an empty sequence included, and the global value is
  ignored; otherwise the global value is taken when the global configuration has the
  key; otherwise the list is empty. When the command is built and the effective value
  is a sequence, the command is the base command followed by \<open>--exclude\<close> and the
  comma-joined items if the sequence is not empty, and the base command alone if it is.
\<close>

theorem exclusion_precedence:
  "(map_of nd ''exclude_vms'' = Some v \<longrightarrow> exclude_list (YDict nd) (YDict cd) = Inr v) \<and>
   (map_of nd ''exclude_vms'' = None \<and> map_of cd ''exclude_vms'' = Some v \<longrightarrow>
      exclude_list (YDict nd) (YDict cd) = Inr v) \<and>
   (map_of nd ''exclude_vms'' = None \<and> map_of cd ''exclude_vms'' = None \<longrightarrow>
      exclude_list (YDict nd) (YDict cd) = Inr (YList [])) \<and>
   (base_command w (YDict nd) (YDict cd) = Inr base \<and>
    exclude_list (YDict nd) (YDict cd) = Inr (YList xs) \<longrightarrow>
      ssh_command w (YDict nd) (YDict cd) =
        Inr (if xs = [] then base
             else base @ [YStr ''--exclude'', YStr (join_str '','' (map (py_str w) xs))]))"
  by (simp add: exclude_list_dict ssh_command_def and_then_Inr exclude_args_list)

theorem exclusion_precedence_witness:
  "exclude_list (YDict [(''shortname'', YStr ''a''), (''fqdn'', YStr ''a.lan''), (''exclude_vms'', YList [])])
     (YDict (example_globals @ [(''exclude_vms'', YList [YInt 100, YInt 101])])) = Inr (YList []) \<and>
   exclude_list (example_node ''a'')
     (YDict (example_globals @ [(''exclude_vms'', YList [YInt 100, YInt 101])])) =
       Inr (YList [YInt 100, YInt 101]) \<and>
   exclude_list (example_node ''a'') (YDict example_globals) = Inr (YList []) \<and>
   ssh_command example_world (example_node ''a'')
     (YDict (example_globals @ [(''exclude_vms'', YList [YInt 100, YInt 101])])) =
       Inr (command_of example_world (example_node ''a'') (YDict example_globals) @
            [YStr ''--exclude'', YStr ''100,101''])"
proof -
  let ?nx = "[(''shortname'', YStr ''a''), (''fqdn'', YStr ''a.lan''), (''exclude_vms'', YList [])]"
  let ?nd = "[(''shortname'', YStr ''a''), (''fqdn'', YStr ''a.lan'')]"
  let ?cd = "example_globals @ [(''exclude_vms'', YList [YInt 100, YInt 101])]"
  have b: "base_command example_world (YDict ?nd) (YDict ?cd) =
             Inr (command_of example_world (YDict ?nd) (YDict example_globals))"
    by (simp add: model_defs)
  have x: "exclude_list (YDict ?nd) (YDict ?cd) = Inr (YList [YInt 100, YInt 101])"
    by (simp add: model_defs)
  have c1: "exclude_list (YDict ?nx) (YDict ?cd) = Inr (YList [])"
    using exclusion_precedence[where nd="?nx" and v="YList []" and cd="?cd", THEN conjunct1]
    by simp
  have c2: "exclude_list (YDict ?nd) (YDict ?cd) = Inr (YList [YInt 100, YInt 101])"
    using exclusion_precedence[where nd="?nd" and v="YList [YInt 100, YInt 101]" and cd="?cd",
        THEN conjunct2, THEN conjunct1]
    by (simp add: example_globals_def)
  have c3: "exclude_list (YDict ?nd) (YDict example_globals) = Inr (YList [])"
    using exclusion_precedence[where nd="?nd" and cd=example_globals,
        THEN conjunct2, THEN conjunct2, THEN conjunct1]
    by (simp add: example_globals_def)
  have c4: "ssh_command example_world (YDict ?nd) (YDict ?cd) =
       Inr (command_of example_world (YDict ?nd) (YDict example_globals) @
            [YStr ''--exclude'', YStr ''100,101''])"
    using exclusion_precedence[where nd="?nd" and cd="?cd" and w=example_world
         and base="command_of example_world (YDict ?nd) (YDict example_globals)"
         and xs="[YInt 100, YInt 101]", THEN conjunct2, THEN conjunct2, THEN conjunct2] b x
    by (simp add: example_world_def scalar_str_def dec_nat.simps)
  show ?thesis
    using c1 c2 c3 c4 by (simp add: example_node_def)
qed

subsection \<open>C7: a schedule that does not have five fields\<close>

text \<open>
  C7. When the schedule string does not split into exactly five fields, the body of the
  \<^verbatim>\<open>try\<close> statement raises the ValueError of line 116, the handler logs the error and
  exits with code 1, so \<^verbatim>\<open>main\<close> ends before the loop whatever would happen in it, and
  no job is registered.
\<close>

theorem malformed_schedule_exits:
  assumes "map_of cd ''schedule'' = Some (YStr sch)" "length (split_ws [] sch) \<noteq> 5"
  shows "parse_schedule w (YDict cd) s =
           (Inl (Exception (ValueError ''The schedule string must have 5 parts'')), s) \<and>
         main w (Inr (YDict cd)) ticks s =
           (Terminated (SystemExit 1),
            logging ERROR (InvalidSchedule (YStr sch) (ValueError ''The schedule string must have 5 parts''))
              (logging INFO (ConfigLoaded (YDict cd)) s)) \<and>
         jobs (snd (main w (Inr (YDict cd)) ticks s)) = jobs s"
  by (simp add: parse_schedule_short[OF assms] main_loaded schedule_setup_short[OF assms] logging_def)

theorem malformed_schedule_exits_witness:
  "length (split_ws [] ''30 2 * *'') \<noteq> 5 \<and>
   fst (main example_world (Inr (YDict [(''schedule'', YStr ''30 2 * *'')])) [Due] initial_state) =
     Terminated (SystemExit 1) \<and>
   jobs (snd (main example_world (Inr (YDict [(''schedule'', YStr ''30 2 * *'')])) [Due] initial_state)) = []"
proof -
  have m: "map_of [(''schedule'', YStr ''30 2 * *'')] ''schedule'' = Some (YStr ''30 2 * *'')" by simp
  have l: "length (split_ws [] ''30 2 * *'') \<noteq> 5" by (simp add: is_space_def)
  show ?thesis
    using l malformed_schedule_exits[OF m l, where w=example_world and ticks="[Due]" and s=initial_state]
    by (simp add: initial_state_def logging_def)
qed

subsection \<open>C8: the polling loop\<close>

text \<open>
  C8. A pass of the loop that raises an exception is logged and the loop goes on with
  the next pass; a pass that raises KeyboardInterrupt logs the interruption and leaves
  the loop. After any number of passes the loop is either still polling or was left by
  \<^verbatim>\<open>break\<close>, never ended by an uncaught signal, and it was left only if a pass was
  interrupted, outside the job or inside a remote call.
\<close>

theorem main_loop_survives_exceptions:
  "(iteration w config t s = (Inl (Exception e), s1) \<longrightarrow>
      main_loop w config (t # ts) s = main_loop w config ts (logging ERROR (MainLoopError e) s1)) \<and>
   (iteration w config t s = (Inl KeyboardInterrupt, s1) \<longrightarrow>
      main_loop w config (t # ts) s = (Stopped, logging INFO InterruptedByUser s1)) \<and>
   (fst (main_loop w config ts s) = Polling \<or> fst (main_loop w config ts s) = Stopped) \<and>
   (fst (main_loop w config ts s) = Stopped \<longrightarrow>
      Interrupt \<in> set ts \<or> (\<exists>k args. subprocess_run w k args 1200 = Interrupted))"
  using main_loop_status[of w config ts s] by auto

theorem main_loop_survives_exceptions_witness:
  "iteration example_world (YDict []) Due initial_state =
     (Inl (Exception (KeyError ''nodes'')),
      initial_state\<lparr>logs := [(INFO, StartingCycle)], clock_reads := 2\<rparr>) \<and>
   main_loop example_world (YDict []) [Due, NotDue] initial_state =
     main_loop example_world (YDict []) [NotDue]
       (initial_state\<lparr>logs := [(INFO, StartingCycle), (ERROR, MainLoopError (KeyError ''nodes''))],
                       clock_reads := 2\<rparr>) \<and>
   main_loop example_world (YDict []) [Interrupt, Due] initial_state =
     (Stopped, initial_state\<lparr>logs := [(INFO, InterruptedByUser)], clock_reads := 1\<rparr>) \<and>
   fst (main_loop example_world (YDict []) [Due, NotDue] initial_state) = Polling \<and>
   fst (main_loop example_world (YDict []) [Interrupt, Due] initial_state) = Stopped \<and>
   Interrupt \<in> set [Interrupt, Due]"
proof -
  have i1: "iteration example_world (YDict []) Due initial_state =
     (Inl (Exception (KeyError ''nodes'')),
      initial_state\<lparr>logs := [(INFO, StartingCycle)], clock_reads := 2\<rparr>)"
    by (simp add: model_defs)
  have i2: "iteration example_world (YDict []) Interrupt initial_state =
     (Inl KeyboardInterrupt, initial_state\<lparr>clock_reads := 1\<rparr>)"
    by (simp add: model_defs)
  have p: "fst (main_loop example_world (YDict []) [Due, NotDue] initial_state) = Polling"
    by (simp add: model_defs)
  show ?thesis
    using i1 i2 p
      main_loop_survives_exceptions[where w=example_world and config="YDict []" and t=Due
         and s=initial_state and e="KeyError ''nodes''"
         and ?s1.0="initial_state\<lparr>logs := [(INFO, StartingCycle)], clock_reads := 2\<rparr>"
         and ts="[NotDue]"]
      main_loop_survives_exceptions[where w=example_world and config="YDict []" and t=Interrupt
         and s=initial_state and ?s1.0="initial_state\<lparr>clock_reads := 1\<rparr>" and ts="[Due]"]
    by (simp add: logging_def initial_state_def)
qed

subsection \<open>C3: one cycle over the nodes\<close>

text \<open>
  C3. The claim is that for every configuration one cycle invokes the backup on all
  nodes exactly once and that its end time is not before its start time. A
  configuration without \<open>mailto\<close> and with two nodes invokes none: the first
  \<^verbatim>\<open>run_vzdump\<close> raises KeyError and the cycle ends there. And \<^verbatim>\<open>datetime.now()\<close> is the
  wall clock: when it is set back between the two readings, the logged duration is
  negative.
\<close>

theorem cycle_aborts_on_missing_key:
  "fst (backup_job example_world config_without_mailto initial_state) = Inl (Exception (KeyError ''mailto'')) \<and>
   issued (snd (backup_job example_world config_without_mailto initial_state)) = [] \<and>
   last (logs (snd (backup_job world_clock_set_back example_config initial_state))) = (INFO, CycleCompleted (- 7))"
  by (simp add: model_defs config_without_mailto_def world_clock_set_back_def)

text \<open>
  C3, as the code has it. When the global configuration and every node have the
  documented shape and no remote call is interrupted, one cycle returns normally and
  hands one command per node to \<^verbatim>\<open>subprocess.run\<close>, in the configured order, whichever
  calls fail; the warnings written are those of the nodes whose call failed, in order;
  the last record is the completion with the second clock reading minus the first,
  which is not negative when the clock was not set back in between.
\<close>

theorem backup_job_visits_every_node:
  assumes "global_ok (YDict cd)" "map_of cd ''nodes'' = Some (YList ns)" "list_all node_ok ns"
    and "\<forall>k args. subprocess_run w k args 1200 \<noteq> Interrupted"
  shows "fst (backup_job w (YDict cd) s) = Inr () \<and>
         issued (snd (backup_job w (YDict cd) s)) =
           issued s @ map (\<lambda>n. (command_of w n (YDict cd), 1200)) ns \<and>
         filter is_warning (logs (snd (backup_job w (YDict cd) s))) =
           filter is_warning (logs s) @
           map (\<lambda>kn. warning_for (snd kn))
             (filter (call_fails w (YDict cd))
                (zip [length (issued s)..<length (issued s) + length ns] ns)) \<and>
         last (logs (snd (backup_job w (YDict cd) s))) =
           (INFO, CycleCompleted (datetime_now w (Suc (clock_reads s)) - datetime_now w (clock_reads s))) \<and>
         (datetime_now w (clock_reads s) \<le> datetime_now w (Suc (clock_reads s)) \<longrightarrow>
            (\<exists>d\<ge>0. last (logs (snd (backup_job w (YDict cd) s))) = (INFO, CycleCompleted d)))"
proof -
  let ?s2 = "read_clock (logging INFO StartingCycle s)"
  have it: "and_then (py_getitem (YDict cd) ''nodes'') py_iter = Inr ns"
    by (simp add: getitem_dict assms(2) and_then_def py_iter_def)
  from backup_nodes_ok[OF assms(1) assms(4) assms(3), of ?s2] obtain s3 where s3:
    "backup_nodes w (YDict cd) ns ?s2 = (Inr (), s3)"
    "issued s3 = issued ?s2 @ map (\<lambda>n. (command_of w n (YDict cd), 1200)) ns"
    "clock_reads s3 = clock_reads ?s2"
    "filter is_warning (logs s3) = filter is_warning (logs ?s2) @
         map (\<lambda>kn. warning_for (snd kn))
           (filter (call_fails w (YDict cd)) (zip [length (issued ?s2)..<length (issued ?s2) + length ns] ns))"
    by blast
  have j: "backup_job w (YDict cd) s =
     (Inr (), logging INFO (CycleCompleted (datetime_now w (clock_reads s3) -
                                            datetime_now w (clock_reads (logging INFO StartingCycle s))))
                (read_clock s3))"
    by (simp add: backup_job_def Let_def it s3(1))
  have pre: "issued ?s2 = issued s" "clock_reads ?s2 = Suc (clock_reads s)"
     "filter is_warning (logs ?s2) = filter is_warning (logs s)"
    by (simp_all add: read_clock_def logging_def is_warning_def)
  show ?thesis
    unfolding j using s3 pre
    by (simp add: logging_def read_clock_def is_warning_def)
qed

theorem backup_job_visits_every_node_witness:
  "global_ok example_config \<and>
   fst (backup_job example_world example_config initial_state) = Inr () \<and>
   issued (snd (backup_job example_world example_config initial_state)) =
     [(command_of example_world (example_node ''a'') example_config, 1200),
      (command_of example_world (example_node ''b'') example_config, 1200),
      (command_of example_world (example_node ''c'') example_config, 1200)] \<and>
   filter is_warning (logs (snd (backup_job example_world example_config initial_state))) =
     [(WARNING, NodeFailed (YStr ''b''))] \<and>
   last (logs (snd (backup_job example_world example_config initial_state))) = (INFO, CycleCompleted 7)"
proof -
  let ?cd = "example_globals @
       [(''schedule'', YStr ''30 2 * * *''),
        (''nodes'', YList [example_node ''a'', example_node ''b'', example_node ''c''])]"
  have g: "global_ok (YDict ?cd)" by (simp add: model_defs)
  have m: "map_of ?cd ''nodes'' = Some (YList [example_node ''a'', example_node ''b'', example_node ''c''])"
    by (simp add: example_globals_def)
  have n: "list_all node_ok [example_node ''a'', example_node ''b'', example_node ''c'']"
    by (simp add: model_defs)
  have l: "\<forall>k args. subprocess_run example_world k args 1200 \<noteq> Interrupted"
    by (simp add: example_world_def)
  have c: "datetime_now example_world (clock_reads initial_state)
             \<le> datetime_now example_world (Suc (clock_reads initial_state))"
    by (simp add: example_world_def)
  have f: "map (\<lambda>kn. warning_for (snd kn))
             (filter (call_fails example_world (YDict ?cd))
                (zip [0..<Suc (Suc (Suc 0))]
                   [example_node ''a'', example_node ''b'', example_node ''c''])) =
           [(WARNING, NodeFailed (YStr ''b''))]"
    by (simp add: upt_rec call_fails_def example_world_def warning_for_def example_node_def py_get_def)
  have i: "issued initial_state = []" "logs initial_state = []" "clock_reads initial_state = 0"
    by (simp_all add: initial_state_def)
  have d: "datetime_now example_world (Suc 0) - datetime_now example_world 0 = 7"
    by (simp add: example_world_def)
  note t = backup_job_visits_every_node[OF g m n l, of initial_state]
  show ?thesis
    using g c t unfolding example_config_def
    by (simp add: f i d del: upt_Suc)
qed

subsection \<open>C10: a missing key aborts the cycle\<close>

text \<open>
  C10. Let a node of the list lack \<open>fqdn\<close> or \<open>shortname\<close>, or the global configuration
  lack one of \<open>mailto\<close>, \<open>fleecing\<close>, \<open>bwlimit\<close>, \<open>pbs_storage\<close>, \<open>notes_template\<close>,
  \<open>mailnotification\<close>, and let the nodes before it have returned their outcomes. Then
  \<^verbatim>\<open>run_vzdump\<close> for that node raises KeyError and leaves the state as it found it (no
  record, no remote call); the cycle ends with that KeyError in the state reached after
  the earlier nodes, so that exactly they were invoked and no completion record was
  written; and the loop logs the error and goes on with its next pass.
\<close>

theorem missing_key_aborts_cycle:
  assumes "map_of cd ''nodes'' = Some (YList (pre @ YDict nd # post))"
    and "lacks_key nd cd"
    and "backup_nodes w (YDict cd) pre (read_clock (logging INFO StartingCycle (read_clock s))) = (Inr (), s1)"
  shows "\<exists>k. run_vzdump w (YDict nd) (YDict cd) s1 = (Inl (Exception (KeyError k)), s1) \<and>
             backup_job w (YDict cd) (read_clock s) = (Inl (Exception (KeyError k)), s1) \<and>
             length (issued s1) = length (issued s) + length pre \<and>
             filter is_completion (logs s1) = filter is_completion (logs s) \<and>
             main_loop w (YDict cd) (Due # ts) s =
               main_loop w (YDict cd) ts (logging ERROR (MainLoopError (KeyError k)) s1)"
proof -
  let ?s2 = "read_clock (logging INFO StartingCycle (read_clock s))"
  from lacks_key_run[OF assms(2), of w s1] obtain k where
    k: "run_vzdump w (YDict nd) (YDict cd) s1 = (Inl (Exception (KeyError k)), s1)" by blast
  have it: "and_then (py_getitem (YDict cd) ''nodes'') py_iter = Inr (pre @ YDict nd # post)"
    by (simp add: getitem_dict assms(1) and_then_def py_iter_def)
  have "backup_nodes w (YDict cd) (pre @ YDict nd # post) ?s2 =
          backup_nodes w (YDict cd) (YDict nd # post) s1"
    by (rule backup_nodes_append[OF assms(3)])
  also have "\<dots> = (Inl (Exception (KeyError k)), s1)" by (simp add: k)
  finally have bn: "backup_nodes w (YDict cd) (pre @ YDict nd # post) ?s2 =
      (Inl (Exception (KeyError k)), s1)" .
  have j: "backup_job w (YDict cd) (read_clock s) = (Inl (Exception (KeyError k)), s1)"
    by (simp add: backup_job_def Let_def it bn)
  have it2: "iteration w (YDict cd) Due s = (Inl (Exception (KeyError k)), s1)"
    by (simp add: iteration_def j)
  have ml: "main_loop w (YDict cd) (Due # ts) s =
               main_loop w (YDict cd) ts (logging ERROR (MainLoopError (KeyError k)) s1)"
    by (rule main_loop_Exception[OF it2])
  from backup_nodes_frame[OF assms(3)]
  have f: "length (issued s1) = length (issued s) + length pre"
     "filter is_completion (logs s1) = filter is_completion (logs s)"
    by (simp_all add: read_clock_def logging_def is_completion_def)
  from k j f ml show ?thesis by blast
qed


theorem missing_key_aborts_cycle_witness:
  "lacks_key [(''shortname'', YStr ''b'')] globals_node_without_fqdn \<and>
   fst (backup_nodes example_world (YDict globals_node_without_fqdn) [example_node ''a'']
          (read_clock (logging INFO StartingCycle (read_clock initial_state)))) = Inr () \<and>
   fst (backup_job example_world (YDict globals_node_without_fqdn) (read_clock initial_state)) =
     Inl (Exception (KeyError ''fqdn'')) \<and>
   length (issued (snd (backup_job example_world (YDict globals_node_without_fqdn)
                          (read_clock initial_state)))) = 1 \<and>
   filter is_completion (logs (snd (backup_job example_world (YDict globals_node_without_fqdn)
                                      (read_clock initial_state)))) = [] \<and>
   fst (main_loop example_world (YDict globals_node_without_fqdn) [Due, NotDue] initial_state) = Polling"
proof -
  let ?cd = globals_node_without_fqdn
  let ?s2 = "read_clock (logging INFO StartingCycle (read_clock initial_state))"
  let ?s1 = "snd (backup_nodes example_world (YDict ?cd) [example_node ''a''] ?s2)"
  have m: "map_of ?cd ''nodes'' =
     Some (YList ([example_node ''a''] @ YDict [(''shortname'', YStr ''b'')] # [example_node ''c'']))"
    by (simp add: globals_node_without_fqdn_def example_globals_def)
  have l: "lacks_key [(''shortname'', YStr ''b'')] ?cd"
    by (simp add: lacks_key_def has_key_def)
  have f: "fst (backup_nodes example_world (YDict ?cd) [example_node ''a''] ?s2) = Inr ()"
    by (simp add: model_defs globals_node_without_fqdn_def)
  then have p: "backup_nodes example_world (YDict ?cd) [example_node ''a''] ?s2 = (Inr (), ?s1)"
    by (metis prod.collapse)
  from missing_key_aborts_cycle[OF m l p, of "[NotDue]"] obtain k where k:
    "run_vzdump example_world (YDict [(''shortname'', YStr ''b'')]) (YDict ?cd) ?s1 =
       (Inl (Exception (KeyError k)), ?s1)"
    "backup_job example_world (YDict ?cd) (read_clock initial_state) = (Inl (Exception (KeyError k)), ?s1)"
    "length (issued ?s1) = length (issued initial_state) + length [example_node ''a'']"
    "filter is_completion (logs ?s1) = filter is_completion (logs initial_state)"
    "main_loop example_world (YDict ?cd) [Due, NotDue] initial_state =
       main_loop example_world (YDict ?cd) [NotDue] (logging ERROR (MainLoopError (KeyError k)) ?s1)"
    by blast
  have kv: "k = ''fqdn''"
    using k(1) by (simp add: run_vzdump_def ssh_command_def base_command_def py_getitem_def and_then_def)
  have ml: "fst (main_loop example_world (YDict ?cd) [NotDue] (logging ERROR (MainLoopError (KeyError k)) ?s1)) = Polling"
    by (simp add: iteration_def)
  show ?thesis
    using l f k(2,3,4,5) kv ml by (simp add: initial_state_def)
qed

subsection \<open>C5: what makes startup fail\<close>




subsection \<open>C4: which recurrence a five-field schedule selects\<close>

text \<open>
  C4. For a schedule of five fields: when the minute and the hour field are both the
  wildcard, the job is registered for every minute; when the hour field is the wildcard
  and the minute field is a literal \<open>m\<close> of at most 59, for minute \<open>m\<close> of every hour;
  when the hour field is a literal \<open>hh\<close> of at most 23 and the minute field a literal
  \<open>m\<close> of at most 59, daily at \<open>hh:m\<close>. The last three fields play no part. The first
  and the last statement hold in every environment; the two in between are about the
  library's time check as modelled from the specification.
\<close>

theorem schedule_selects_rule:
  assumes "map_of cd ''schedule'' = Some (YStr sch)" "split_ws [] sch = [mi, h, dm, mo, dw]"
  shows "(mi = ''*'' \<and> h = ''*'' \<longrightarrow>
            parse_schedule w (YDict cd) s =
              (Inr (), logging INFO ScheduledEveryMinute (register EveryMinute s))) \<and>
         (h = ''*'' \<and> int_literal mi = Some m \<and> m \<le> 59 \<longrightarrow>
            parse_schedule (w\<lparr>schedule_at := spec_at err\<rparr>) (YDict cd) s =
              (Inr (), logging INFO (ScheduledHourly mi) (register (HourlyAtMinute m) s))) \<and>
         (int_literal h = Some hh \<and> hh \<le> 23 \<and> int_literal mi = Some m \<and> m \<le> 59 \<longrightarrow>
            parse_schedule (w\<lparr>schedule_at := spec_at err\<rparr>) (YDict cd) s =
              (Inr (), logging INFO (ScheduledDaily (py_zfill h 2) (py_zfill mi 2))
                         (register (DailyAt hh m) s))) \<and>
         (map_of cd' ''schedule'' = Some (YStr sch') \<and> split_ws [] sch' = [mi, h, dm', mo', dw'] \<longrightarrow>
            parse_schedule w (YDict cd') s = parse_schedule w (YDict cd) s)"
proof -
  note pf = parse_schedule_fields[OF assms]
  have a: "mi = ''*'' \<and> h = ''*'' \<longrightarrow>
            parse_schedule w (YDict cd) s =
              (Inr (), logging INFO ScheduledEveryMinute (register EveryMinute s))"
    by (simp add: pf)
  have b: "h = ''*'' \<and> int_literal mi = Some m \<and> m \<le> 59 \<longrightarrow>
            parse_schedule (w\<lparr>schedule_at := spec_at err\<rparr>) (YDict cd) s =
              (Inr (), logging INFO (ScheduledHourly mi) (register (HourlyAtMinute m) s))"
  proof
    assume h: "h = ''*'' \<and> int_literal mi = Some m \<and> m \<le> 59"
    then have "mi \<noteq> ''*''" using int_literal_not_star by blast
    moreover from h spec_at_hours[of mi m err]
    have "spec_at err Hours ('':'' @ py_zfill mi 2) = Inr (0, m)"
      by simp
    ultimately show "parse_schedule (w\<lparr>schedule_at := spec_at err\<rparr>) (YDict cd) s =
              (Inr (), logging INFO (ScheduledHourly mi) (register (HourlyAtMinute m) s))"
      using h by (simp add: pf)
  qed
  have c: "int_literal h = Some hh \<and> hh \<le> 23 \<and> int_literal mi = Some m \<and> m \<le> 59 \<longrightarrow>
            parse_schedule (w\<lparr>schedule_at := spec_at err\<rparr>) (YDict cd) s =
              (Inr (), logging INFO (ScheduledDaily (py_zfill h 2) (py_zfill mi 2))
                         (register (DailyAt hh m) s))"
  proof
    assume h: "int_literal h = Some hh \<and> hh \<le> 23 \<and> int_literal mi = Some m \<and> m \<le> 59"
    then have "h \<noteq> ''*''" using int_literal_not_star by blast
    moreover from h spec_at_days[of h hh mi m err]
    have "spec_at err Days (py_zfill h 2 @ '':'' @ py_zfill mi 2) = Inr (hh, m)"
      by simp
    ultimately show "parse_schedule (w\<lparr>schedule_at := spec_at err\<rparr>) (YDict cd) s =
              (Inr (), logging INFO (ScheduledDaily (py_zfill h 2) (py_zfill mi 2))
                         (register (DailyAt hh m) s))"
      using h by (simp add: pf)
  qed
  have d: "map_of cd' ''schedule'' = Some (YStr sch') \<and> split_ws [] sch' = [mi, h, dm', mo', dw'] \<longrightarrow>
            parse_schedule w (YDict cd') s = parse_schedule w (YDict cd) s"
    by (simp add: pf parse_schedule_fields)
  from a b c d show ?thesis by blast
qed

theorem schedule_selects_rule_witness:
  "parse_schedule example_world (YDict [(''schedule'', YStr ''* * 1 2 3'')]) initial_state =
     (Inr (), logging INFO ScheduledEveryMinute (register EveryMinute initial_state)) \<and>
   parse_schedule example_world (YDict [(''schedule'', YStr ''5 * * * *'')]) initial_state =
     (Inr (), logging INFO (ScheduledHourly ''5'') (register (HourlyAtMinute 5) initial_state)) \<and>
   parse_schedule example_world (YDict [(''schedule'', YStr ''30 2 * * *'')]) initial_state =
     (Inr (), logging INFO (ScheduledDaily ''02'' ''30'') (register (DailyAt 2 30) initial_state)) \<and>
   parse_schedule example_world (YDict [(''schedule'', YStr ''30 2 1 1 1'')]) initial_state =
     parse_schedule example_world (YDict [(''schedule'', YStr ''30 2 * * *'')]) initial_state"
proof -
  have w: "example_world\<lparr>schedule_at := spec_at (OtherError ''ScheduleValueError'')\<rparr> = example_world"
    by (simp add: example_world_def)
  have s1: "split_ws [] ''* * 1 2 3'' = [''*'', ''*'', ''1'', ''2'', ''3'']"
    and s2: "split_ws [] ''5 * * * *'' = [''5'', ''*'', ''*'', ''*'', ''*'']"
    and s3: "split_ws [] ''30 2 * * *'' = [''30'', ''2'', ''*'', ''*'', ''*'']"
    and s4: "split_ws [] ''30 2 1 1 1'' = [''30'', ''2'', ''1'', ''1'', ''1'']"
    by (simp_all add: is_space_def)
  have l: "int_literal ''5'' = Some 5" "int_literal ''30'' = Some 30" "int_literal ''2'' = Some 2"
    by (simp_all add: int_literal_def is_digit_def)
  have z: "py_zfill ''2'' 2 = ''02''" "py_zfill ''30'' 2 = ''30''"
    by (simp_all add: py_zfill_def)
  have c1: "parse_schedule example_world (YDict [(''schedule'', YStr ''* * 1 2 3'')]) initial_state =
     (Inr (), logging INFO ScheduledEveryMinute (register EveryMinute initial_state))"
    using schedule_selects_rule[where cd="[(''schedule'', YStr ''* * 1 2 3'')]" and w=example_world
        and s=initial_state, OF _ s1, THEN conjunct1]
    by simp
  have c2: "parse_schedule example_world (YDict [(''schedule'', YStr ''5 * * * *'')]) initial_state =
     (Inr (), logging INFO (ScheduledHourly ''5'') (register (HourlyAtMinute 5) initial_state))"
    using schedule_selects_rule[where cd="[(''schedule'', YStr ''5 * * * *'')]" and w=example_world
        and s=initial_state and m=5 and err="OtherError ''ScheduleValueError''",
        OF _ s2, THEN conjunct2, THEN conjunct1] l
    by (simp add: w)
  have c3: "parse_schedule example_world (YDict [(''schedule'', YStr ''30 2 * * *'')]) initial_state =
     (Inr (), logging INFO (ScheduledDaily ''02'' ''30'') (register (DailyAt 2 30) initial_state))"
    using schedule_selects_rule[where cd="[(''schedule'', YStr ''30 2 * * *'')]" and w=example_world
        and s=initial_state and m=30 and hh=2 and err="OtherError ''ScheduleValueError''",
        OF _ s3, THEN conjunct2, THEN conjunct2, THEN conjunct1] l z
    by (simp add: w)
  have c4: "parse_schedule example_world (YDict [(''schedule'', YStr ''30 2 1 1 1'')]) initial_state =
     parse_schedule example_world (YDict [(''schedule'', YStr ''30 2 * * *'')]) initial_state"
    using schedule_selects_rule[where cd="[(''schedule'', YStr ''30 2 * * *'')]" and w=example_world
        and s=initial_state and cd'="[(''schedule'', YStr ''30 2 1 1 1'')]" and sch'="''30 2 1 1 1''"
        and dm'="''1''" and mo'="''1''" and dw'="''1''",
        OF _ s3, THEN conjunct2, THEN conjunct2, THEN conjunct2] s4
    by simp
  from c1 c2 c3 c4 show ?thesis by simp
qed

subsection \<open>C9: a wildcard minute with a concrete hour\<close>

text \<open>
  C9. For a schedule of five fields whose minute field is the wildcard and whose hour
  field is not, the daily branch is taken in every environment and the library is
  handed the padded hour followed by \<open>:0*\<close>, the wildcard padded like a number. The time
  check modelled from the specification rejects that text, so that parsing raises its
  error, \<^verbatim>\<open>main\<close> ends before the loop (with exit code 1 when the error is a ValueError,
  with the uncaught error otherwise) and no job is registered.
\<close>

theorem wildcard_minute_rejected:
  assumes "map_of cd ''schedule'' = Some (YStr sch)" "split_ws [] sch = [''*'', h, dm, mo, dw]"
    and "h \<noteq> ''*''"
  shows "parse_schedule w (YDict cd) s =
           (case schedule_at w Days (py_zfill h 2 @ '':0*'') of
              Inl e \<Rightarrow> (Inl (Exception e), s)
            | Inr t \<Rightarrow> (Inr (), logging INFO (ScheduledDaily (py_zfill h 2) ''0*'')
                                  (register (DailyAt (fst t) (snd t)) s))) \<and>
         parse_schedule (w\<lparr>schedule_at := spec_at err\<rparr>) (YDict cd) s = (Inl (Exception err), s) \<and>
         fst (main (w\<lparr>schedule_at := spec_at err\<rparr>) (Inr (YDict cd)) ticks s) =
           Terminated (case err of ValueError m \<Rightarrow> SystemExit 1 | _ \<Rightarrow> Exception err) \<and>
         jobs (snd (main (w\<lparr>schedule_at := spec_at err\<rparr>) (Inr (YDict cd)) ticks s)) = jobs s"
proof -
  have a: "parse_schedule w (YDict cd) s =
           (case schedule_at w Days (py_zfill h 2 @ '':0*'') of
              Inl e \<Rightarrow> (Inl (Exception e), s)
            | Inr t \<Rightarrow> (Inr (), logging INFO (ScheduledDaily (py_zfill h 2) ''0*'')
                                  (register (DailyAt (fst t) (snd t)) s)))" for w s
    using assms(3) unfolding parse_schedule_fields[OF assms(1,2)] zfill_star by simp
  have b: "parse_schedule (w\<lparr>schedule_at := spec_at err\<rparr>) (YDict cd) s = (Inl (Exception err), s)" for s err
    unfolding a by (simp add: spec_at_wildcard_minute)
  have g: "py_getitem (YDict cd) ''schedule'' = Inr (YStr sch)"
    by (simp add: getitem_dict assms(1))
  have c: "fst (main (w\<lparr>schedule_at := spec_at err\<rparr>) (Inr (YDict cd)) ticks s) =
           Terminated (case err of ValueError m \<Rightarrow> SystemExit 1 | _ \<Rightarrow> Exception err) \<and>
         jobs (snd (main (w\<lparr>schedule_at := spec_at err\<rparr>) (Inr (YDict cd)) ticks s)) = jobs s"
    by (cases err) (simp_all add: main_loaded schedule_setup_def b g logging_def)
  from a b c show ?thesis by blast
qed


theorem wildcard_minute_rejected_witness:
  "parse_schedule example_world (YDict [(''schedule'', YStr ''* 3 * * *'')]) initial_state =
     (Inl (Exception (OtherError ''ScheduleValueError'')), initial_state) \<and>
   fst (main example_world (Inr (YDict [(''schedule'', YStr ''* 3 * * *'')])) [Due] initial_state) =
     Terminated (Exception (OtherError ''ScheduleValueError'')) \<and>
   jobs (snd (main example_world (Inr (YDict [(''schedule'', YStr ''* 3 * * *'')])) [Due] initial_state)) = []"
proof -
  have w: "example_world\<lparr>schedule_at := spec_at (OtherError ''ScheduleValueError'')\<rparr> = example_world"
    by (simp add: example_world_def)
  have m: "map_of [(''schedule'', YStr ''* 3 * * *'')] ''schedule'' = Some (YStr ''* 3 * * *'')"
    by simp
  have s: "split_ws [] ''* 3 * * *'' = [''*'', ''3'', ''*'', ''*'', ''*'']"
    by (simp add: is_space_def)
  have h: "''3'' \<noteq> ''*''" by simp
  show ?thesis
    using wildcard_minute_rejected[OF m s h, where w=example_world and s=initial_state
        and err="OtherError ''ScheduleValueError''" and ticks="[Due]", THEN conjunct2]
    by (simp add: w initial_state_def)
qed

end
